theory Spec2Isabelle
  imports Complex_Main
begin

section \<open>Python strings\<close>

text \<open>
  A Python \<open>str\<close> is a sequence of code points. It is modelled as a \<open>string\<close>, one
  \<open>char\<close> per code point, which covers the code points below 256. The functions of this
  section are the \<open>str\<close> methods that \<open>generate_report.py\<close> calls.
\<close>

definition NL :: char where
  "NL = CHR 0x0A"

definition TAB :: char where
  "TAB = CHR 0x09"

text \<open>\<open>s.startswith(p)\<close>.\<close>

definition startswith :: "string \<Rightarrow> string \<Rightarrow> bool" where
  "startswith s p = (take (length p) s = p)"

text \<open>
  The characters that \<open>str.split()\<close> and \<open>str.strip()\<close> treat as whitespace
  (\<open>str.isspace\<close>), among the code points below 256: \<open>0x09\<close> to \<open>0x0D\<close>, \<open>0x1C\<close> to
  \<open>0x20\<close>, \<open>0x85\<close> and \<open>0xA0\<close>.
\<close>

definition isspace :: "char \<Rightarrow> bool" where
  "isspace c = (let n = (of_char c :: nat) in
     (9 \<le> n \<and> n \<le> 13) \<or> (28 \<le> n \<and> n \<le> 32) \<or> n = 133 \<or> n = 160)"

text \<open>
  \<open>s.split('\n')\<close>: the pieces between newlines, empty pieces kept; the result is
  never empty. \<open>cur\<close> is the piece read so far.
\<close>

fun split_pieces :: "string \<Rightarrow> string \<Rightarrow> string list" where
  "split_pieces cur [] = [cur]"
| "split_pieces cur (c # cs) =
     (if c = NL then cur # split_pieces [] cs else split_pieces (cur @ [c]) cs)"

definition split_nl :: "string \<Rightarrow> string list" where
  "split_nl s = split_pieces [] s"

text \<open>
  \<open>s.split()\<close>: the maximal runs of non-whitespace characters. \<open>tok\<close> is the token read
  so far.
\<close>

fun split_tokens :: "string \<Rightarrow> string \<Rightarrow> string list" where
  "split_tokens tok [] = (if tok = [] then [] else [tok])"
| "split_tokens tok (c # cs) =
     (if isspace c then (if tok = [] then [] else [tok]) @ split_tokens [] cs
      else split_tokens (tok @ [c]) cs)"

definition split_ws :: "string \<Rightarrow> string list" where
  "split_ws s = split_tokens [] s"

text \<open>\<open>s.strip()\<close>.\<close>

definition strip :: "string \<Rightarrow> string" where
  "strip s = rev (dropWhile isspace (rev (dropWhile isspace s)))"

text \<open>\<open>s.replace('-', '/')\<close>: both arguments are single characters.\<close>

definition replace_dash :: "string \<Rightarrow> string" where
  "replace_dash s = map (\<lambda>c. if c = CHR ''-'' then CHR ''/'' else c) s"

text \<open>
  \<open>a <= b\<close> on strings: lexicographic by code point, a proper prefix is smaller.
\<close>

fun str_le :: "string \<Rightarrow> string \<Rightarrow> bool" where
  "str_le [] b = True"
| "str_le (x # a) [] = False"
| "str_le (x # a) (y # b) =
     (if (of_char x :: nat) < of_char y then True
      else if (of_char y :: nat) < of_char x then False
      else str_le a b)"

text \<open>\<open>a >= b\<close> is \<open>b <= a\<close>.\<close>

definition str_ge :: "string \<Rightarrow> string \<Rightarrow> bool" where
  "str_ge a b = str_le b a"

section \<open>The change-list parser\<close>

text \<open>
  \<open>parse_pending_changes\<close> builds one dict per header line and keeps references to it
  in \<open>current_change\<close> and in the list \<open>changes\<close>; \<open>description.append\<close> mutates the
  dict through \<open>current_change\<close>. The dicts therefore live in a store: \<open>heap\<close> holds the
  dicts in allocation order, an address is an index into it, and \<open>changes\<close> and
  \<open>current_change\<close> hold addresses.
\<close>

record change =
  number :: string
  date :: string
  header :: string
  description :: "string list"

record pstate =
  heap :: "change list"
  changes :: "nat list"
  current_change :: "nat option"

text \<open>
  Lines 66 and 67: \<open>start_date.replace('-', '/')\<close> and
  \<open>end_date.replace('-', '/') if end_date else None\<close> (\<open>None\<close> and \<open>''\<close> are falsy).
\<close>

definition start_date_str :: "string \<Rightarrow> string" where
  "start_date_str start_date = replace_dash start_date"

definition end_date_str :: "string option \<Rightarrow> string option" where
  "end_date_str end_date =
     (case end_date of
        None \<Rightarrow> None
      | Some e \<Rightarrow> if e = [] then None else Some (replace_dash e))"

text \<open>Lines 75 to 77 (and 97 to 99): the test on the date of a record.\<close>

definition in_range :: "string \<Rightarrow> string option \<Rightarrow> string \<Rightarrow> bool" where
  "in_range start_str end_str change_date =
     (let r = str_ge change_date start_str in
      case end_str of
        None \<Rightarrow> r
      | Some e \<Rightarrow> if e = [] then r else r \<and> str_le change_date e)"

text \<open>
  Lines 73 to 79 (and 95 to 101): the record in progress, if any, is appended to
  \<open>changes\<close> when its date is in the range. \<open>current_change\<close> is left as it is.
\<close>

definition save_current :: "string \<Rightarrow> string option \<Rightarrow> pstate \<Rightarrow> pstate" where
  "save_current start_str end_str st =
     (case current_change st of
        None \<Rightarrow> st
      | Some a \<Rightarrow>
          if in_range start_str end_str (date (heap st ! a))
          then st\<lparr>changes := changes st @ [a]\<rparr>
          else st)"

text \<open>The loop body, lines 70 to 92.\<close>

definition parse_line :: "string \<Rightarrow> string option \<Rightarrow> pstate \<Rightarrow> string \<Rightarrow> pstate" where
  "parse_line start_str end_str st line =
     (if startswith line ''Change '' then
        (let st1 = save_current start_str end_str st;
             parts = split_ws line
         in if length parts \<ge> 4
            then st1\<lparr>heap := heap st1 @
                        [\<lparr>number = parts ! 1, date = parts ! 3,
                          header = line, description = []\<rparr>],
                     current_change := Some (length (heap st1))\<rparr>
            else st1)
      else
        (case current_change st of
           Some a \<Rightarrow>
             if startswith line [TAB]
             then st\<lparr>heap := (heap st)[a := (heap st ! a)
                        \<lparr>description := description (heap st ! a) @ [line]\<rparr>]\<rparr>
             else st
         | None \<Rightarrow> st))"

fun parse_lines :: "string \<Rightarrow> string option \<Rightarrow> pstate \<Rightarrow> string list \<Rightarrow> pstate" where
  "parse_lines start_str end_str st [] = st"
| "parse_lines start_str end_str st (line # lines) =
     parse_lines start_str end_str (parse_line start_str end_str st line) lines"

definition init_pstate :: pstate where
  "init_pstate = \<lparr>heap = [], changes = [], current_change = None\<rparr>"

text \<open>The list that is returned, read through the store.\<close>

definition returned_changes :: "pstate \<Rightarrow> change list" where
  "returned_changes st = map (\<lambda>a. heap st ! a) (changes st)"

definition parse_pending_changes :: "string \<Rightarrow> string \<Rightarrow> string option \<Rightarrow> change list" where
  "parse_pending_changes output start_date end_date =
     (let lines = split_nl output;
          start_str = start_date_str start_date;
          end_str = end_date_str end_date;
          st = parse_lines start_str end_str init_pstate lines
      in returned_changes (save_current start_str end_str st))"

section \<open>Effects: child processes, the diagnostic stream, exits and exceptions\<close>

text \<open>
  What the outside world does is an input of the model (\<open>env\<close>); what the program does
  to it is recorded in \<open>io\<close>: the command lines spawned so far, in order, and the lines
  printed to \<open>sys.stderr\<close>. A call ends in one of three ways: it returns, it calls
  \<open>sys.exit\<close>, or an exception leaves it.
\<close>

datatype json =
    JNull
  | JBool bool
  | JNumber rat
  | JString string
  | JArray "json list"
  | JObject "string \<Rightarrow> json option"

datatype exc =
    CalledProcessError "string list" int string string
  | OSError string
  | ConnectionError
  | Timeout
  | HTTPError nat
  | OtherRequestException string
  | AttributeError
  | OtherException string

text \<open>The exceptions that \<open>except requests.exceptions.RequestException\<close> catches.\<close>

fun is_RequestException :: "exc \<Rightarrow> bool" where
  "is_RequestException ConnectionError = True"
| "is_RequestException Timeout = True"
| "is_RequestException (HTTPError status) = True"
| "is_RequestException (OtherRequestException msg) = True"
| "is_RequestException e = False"

datatype 'a outcome = Return 'a | SysExit int | Raise exc

record process =
  returncode :: int
  stdout :: string
  stderr :: string

record request =
  url :: string
  req_model :: string
  req_prompt :: string
  req_stream :: bool
  req_temperature :: rat
  req_num_ctx :: int

text \<open>
  A response of \<open>requests\<close>: its status code and what \<open>response.json()\<close> does, the
  decoded body or the exception it raises.
\<close>

record response =
  status_code :: nat
  json_result :: "exc + json"

text \<open>
  \<open>child n cmd\<close> is what happens when \<open>cmd\<close> is spawned after \<open>n\<close> earlier spawns: the
  process cannot be started (\<open>Inl\<close>) or it runs to completion. \<open>exc_str\<close> is \<open>str(e)\<close>,
  \<open>now\<close> the text of \<open>datetime.now().strftime('%Y-%m-%d %H:%M:%S')\<close>, \<open>elapsed\<close> the text
  of \<open>{elapsed:.3f}\<close> for a timed function, \<open>http_post\<close> what \<open>requests.post\<close> does.
\<close>

record env =
  child :: "nat \<Rightarrow> string list \<Rightarrow> exc + process"
  exc_str :: "exc \<Rightarrow> string"
  now :: string
  elapsed :: "string \<Rightarrow> string"
  http_post :: "request \<Rightarrow> exc + response"

record io =
  spawned :: "string list list"
  err :: "string list"

text \<open>Sequencing: an exit or an exception of the first call ends the whole call.\<close>

definition and_then ::
  "'a outcome \<times> io \<Rightarrow> ('a \<Rightarrow> io \<Rightarrow> 'b outcome \<times> io) \<Rightarrow> 'b outcome \<times> io" where
  "and_then m f =
     (case m of
        (Return x, st) \<Rightarrow> f x st
      | (SysExit n, st) \<Rightarrow> (SysExit n, st)
      | (Raise e, st) \<Rightarrow> (Raise e, st))"

text \<open>\<open>print(text, file=sys.stderr)\<close>.\<close>

definition print_err :: "string \<Rightarrow> io \<Rightarrow> io" where
  "print_err text st = st\<lparr>err := err st @ [text]\<rparr>"

text \<open>
  \<open>utilities/decorators.py\<close>, \<open>timed\<close>: the wrapped call, then one line on the diagnostic
  stream when the call returned.
\<close>

definition timed :: "env \<Rightarrow> string \<Rightarrow> 'a outcome \<times> io \<Rightarrow> 'a outcome \<times> io" where
  "timed e name m =
     and_then m (\<lambda>result st.
       (Return result, print_err (name @ '' took '' @ elapsed e name @ ''s'') st))"

section \<open>The command runner\<close>

text \<open>
  \<open>subprocess.run(cmd, capture_output=True, text=True, check=True)\<close>: one child process;
  \<open>check=True\<close> raises \<open>CalledProcessError\<close> when the return code is not zero.
\<close>

definition subprocess_run :: "env \<Rightarrow> io \<Rightarrow> string list \<Rightarrow> process outcome \<times> io" where
  "subprocess_run e st cmd =
     (let st' = st\<lparr>spawned := spawned st @ [cmd]\<rparr> in
      case child e (length (spawned st)) cmd of
        Inl x \<Rightarrow> (Raise x, st')
      | Inr p \<Rightarrow>
          if returncode p \<noteq> 0
          then (Raise (CalledProcessError cmd (returncode p) (stdout p) (stderr p)), st')
          else (Return p, st'))"

text \<open>Line 20.\<close>

definition p4_cmd :: "string \<Rightarrow> string \<Rightarrow> string \<Rightarrow> string list \<Rightarrow> string list" where
  "p4_cmd p4_user p4_workspace p4_server command =
     [''p4'', ''-u'', p4_user, ''-c'', p4_workspace, ''-p'', p4_server] @ command"

definition run_p4_command ::
  "env \<Rightarrow> io \<Rightarrow> string \<Rightarrow> string \<Rightarrow> string \<Rightarrow> string list \<Rightarrow> string outcome \<times> io" where
  "run_p4_command e st p4_user p4_workspace p4_server command =
     (let cmd = p4_cmd p4_user p4_workspace p4_server command in
      case subprocess_run e st cmd of
        (Return result, st') \<Rightarrow> (Return (stdout result), st')
      | (Raise x, st') \<Rightarrow>
          (case x of
             CalledProcessError c rc out errtext \<Rightarrow>
               (SysExit 1,
                print_err (''Output: '' @ errtext)
                  (print_err (''Error running p4 command: '' @ exc_str e x) st'))
           | _ \<Rightarrow> (Raise x, st'))
      | (SysExit n, st') \<Rightarrow> (SysExit n, st'))"

section \<open>The workspace path resolver\<close>

text \<open>
  The loop of lines 36 to 55, with \<open>in_view_section\<close> and \<open>depot_paths\<close> as arguments;
  \<open>break\<close> returns the paths collected so far.
\<close>

fun view_lines :: "bool \<Rightarrow> string list \<Rightarrow> string list \<Rightarrow> string list" where
  "view_lines in_view_section depot_paths [] = depot_paths"
| "view_lines in_view_section depot_paths (line # lines) =
     (if startswith line ''View:'' then view_lines True depot_paths lines
      else if in_view_section then
        (if strip line = [] then view_lines in_view_section depot_paths lines
         else if startswith (strip line) ''//'' then
           (case split_ws (strip line) of
              [] \<Rightarrow> view_lines in_view_section depot_paths lines
            | depot_path # others \<Rightarrow>
                if \<not> startswith depot_path ''-''
                then view_lines in_view_section (depot_paths @ [depot_path]) lines
                else view_lines in_view_section depot_paths lines)
         else depot_paths)
      else view_lines in_view_section depot_paths lines)"

definition view_depot_paths :: "string \<Rightarrow> string list" where
  "view_depot_paths output = view_lines False [] (split_nl output)"

definition get_workspace_depot_paths ::
  "env \<Rightarrow> io \<Rightarrow> string \<Rightarrow> string \<Rightarrow> string \<Rightarrow> string list outcome \<times> io" where
  "get_workspace_depot_paths e st p4_user p4_workspace p4_server =
     and_then
       (run_p4_command e st p4_user p4_workspace p4_server [''client'', ''-o'', p4_workspace])
       (\<lambda>output st'. (Return (view_depot_paths output), st'))"

section \<open>The report assembler\<close>

text \<open>\<open>str(n)\<close> for a length or a count, as the f-strings of the report format it.\<close>

fun show_nat :: "nat \<Rightarrow> string" where
  "show_nat n =
     (if n < 10 then [char_of (48 + n)]
      else show_nat (n div 10) @ [char_of (48 + n mod 10)])"

text \<open>
  Lines 110 to 119: the depot paths given by the caller, or else those of the
  workspace; \<open>path_filter\<close> is what is left, \<open>[]\<close> for no restriction. \<open>None\<close> and \<open>[]\<close>
  are both falsy.
\<close>

definition resolve_path_filter ::
  "env \<Rightarrow> io \<Rightarrow> string \<Rightarrow> string \<Rightarrow> string \<Rightarrow> string list option
     \<Rightarrow> string list outcome \<times> io" where
  "resolve_path_filter e st p4_user p4_workspace p4_server depot_paths =
     (case depot_paths of
        Some (p # ps) \<Rightarrow> (Return (p # ps), st)
      | _ \<Rightarrow>
          and_then (get_workspace_depot_paths e st p4_user p4_workspace p4_server)
            (\<lambda>found st'.
               if found = []
               then (Return [],
                     print_err
                       ''Warning: Could not determine depot paths from workspace, using all depots''
                       st')
               else (Return found, st')))"

text \<open>Lines 122 and 123, and the suffix \<open>@start,@end\<close> of lines 139, 141, 173 and 175.\<close>

definition p4_end_date :: "string option \<Rightarrow> string" where
  "p4_end_date end_date =
     (case end_date of
        None \<Rightarrow> ''now''
      | Some d \<Rightarrow> if d = [] then ''now'' else replace_dash d)"

definition range_suffix :: "string \<Rightarrow> string option \<Rightarrow> string" where
  "range_suffix start_date end_date =
     ''@'' @ replace_dash start_date @ '',@'' @ p4_end_date end_date"

text \<open>Lines 126 to 128.\<close>

definition pending_cmd :: "string \<Rightarrow> string list \<Rightarrow> string list" where
  "pending_cmd p4_user path_filter =
     [''changes'', ''-l'', ''-u'', p4_user, ''-s'', ''pending''] @ path_filter"

text \<open>
  Lines 136 to 141, and lines 170 to 175 with the flag \<open>-l\<close> (\<open>long\<close>).
\<close>

definition submitted_cmd ::
  "bool \<Rightarrow> string \<Rightarrow> string list \<Rightarrow> string \<Rightarrow> string option \<Rightarrow> string list" where
  "submitted_cmd long p4_user path_filter start_date end_date =
     ([''changes''] @ (if long then [''-l''] else []) @ [''-u'', p4_user, ''-s'', ''submitted''])
     @ (if path_filter \<noteq> []
        then map (\<lambda>path. path @ range_suffix start_date end_date) path_filter
        else [range_suffix start_date end_date])"

text \<open>Lines 152 to 158: the metadata written to the empty \<open>StringIO\<close>.\<close>

definition report_metadata ::
  "string \<Rightarrow> string \<Rightarrow> string \<Rightarrow> string \<Rightarrow> string \<Rightarrow> string option \<Rightarrow> nat \<Rightarrow> nat
     \<Rightarrow> string" where
  "report_metadata report_date p4_user p4_workspace p4_server start_date end_date
       pending_count submitted_count =
     replicate 60 (CHR ''='') @ [NL]
     @ ''P4 CHANGES REPORT'' @ [NL]
     @ ''Date: '' @ start_date @ '' to ''
         @ (case end_date of
              None \<Rightarrow> report_date
            | Some d \<Rightarrow> if d = [] then report_date else d) @ [NL]
     @ ''User: '' @ p4_user @ '' | Workspace: '' @ p4_workspace
         @ '' | Server: '' @ p4_server @ [NL]
     @ ''Generated: '' @ report_date @ [NL]
     @ ''Pending: '' @ show_nat pending_count
         @ '' | Submitted: '' @ show_nat submitted_count @ [NL]
     @ replicate 60 (CHR ''='') @ [NL, NL]"

text \<open>
  Lines 162 to 165: the two nested loops that write the pending changes; \<open>report\<close> is
  the content of the \<open>StringIO\<close> so far.
\<close>

fun write_description :: "string \<Rightarrow> string list \<Rightarrow> string" where
  "write_description report [] = report"
| "write_description report (desc_line # desc_lines) =
     write_description (report @ desc_line @ [NL]) desc_lines"

fun write_changes :: "string \<Rightarrow> change list \<Rightarrow> string" where
  "write_changes report [] = report"
| "write_changes report (c # cs) =
     write_changes (write_description (report @ [NL] @ header c @ [NL]) (description c)) cs"

definition generate_raw_report_body ::
  "env \<Rightarrow> io \<Rightarrow> string \<Rightarrow> string \<Rightarrow> string \<Rightarrow> string \<Rightarrow> string option
     \<Rightarrow> string list option \<Rightarrow> string outcome \<times> io" where
  "generate_raw_report_body e st p4_user p4_workspace p4_server start_date end_date depot_paths =
     and_then (resolve_path_filter e st p4_user p4_workspace p4_server depot_paths)
       (\<lambda>path_filter st1.
     and_then (run_p4_command e st1 p4_user p4_workspace p4_server
                 (pending_cmd p4_user path_filter))
       (\<lambda>pending_output st2.
     let pending_changes = parse_pending_changes pending_output start_date end_date in
     and_then (run_p4_command e st2 p4_user p4_workspace p4_server
                 (submitted_cmd False p4_user path_filter start_date end_date))
       (\<lambda>submitted_output st3.
     let submitted_count =
           length (filter (\<lambda>line. startswith line ''Change '') (split_nl submitted_output));
         report = report_metadata (now e) p4_user p4_workspace p4_server start_date end_date
                    (length pending_changes) submitted_count;
         report = (if pending_changes \<noteq> []
                   then write_changes report pending_changes
                   else report @ ''No pending changes found for this period.'' @ [NL])
     in
     and_then (run_p4_command e st3 p4_user p4_workspace p4_server
                 (submitted_cmd True p4_user path_filter start_date end_date))
       (\<lambda>submitted_output_full st4.
          (Return (if strip submitted_output_full \<noteq> []
                   then report @ submitted_output_full @ [NL]
                   else report @ ''No submitted changes found for this period.'' @ [NL]),
           st4)))))"

definition generate_raw_report ::
  "env \<Rightarrow> io \<Rightarrow> string \<Rightarrow> string \<Rightarrow> string \<Rightarrow> string \<Rightarrow> string option
     \<Rightarrow> string list option \<Rightarrow> string outcome \<times> io" where
  "generate_raw_report e st p4_user p4_workspace p4_server start_date end_date depot_paths =
     timed e ''generate_raw_report''
       (generate_raw_report_body e st p4_user p4_workspace p4_server start_date end_date
          depot_paths)"

section \<open>The summary requester\<close>

text \<open>
  \<open>int(x)\<close> truncates towards zero. \<open>len(prompt) / 3\<close> is a float division; the model
  computes it exactly, which gives the same integer as the IEEE double for every
  length below \<open>2 ^ 52\<close>.
\<close>

definition py_int :: "rat \<Rightarrow> int" where
  "py_int x = (if 0 \<le> x then \<lfloor>x\<rfloor> else \<lceil>x\<rceil>)"

text \<open>\<open>n.bit_length()\<close>: the number of bits of the absolute value.\<close>

fun bits :: "nat \<Rightarrow> nat" where
  "bits n = (if n = 0 then 0 else Suc (bits (n div 2)))"

definition bit_length :: "int \<Rightarrow> nat" where
  "bit_length n = bits (nat \<bar>n\<bar>)"

text \<open>Line 192 and lines 197 and 198.\<close>

definition make_prompt :: "string \<Rightarrow> string \<Rightarrow> string" where
  "make_prompt custom_prompt report_text = custom_prompt @ [NL, NL] @ report_text"

definition token_estimate :: "string \<Rightarrow> int" where
  "token_estimate prompt = py_int ((of_nat (length prompt) / 3) * 2)"

definition num_ctx :: "string \<Rightarrow> int" where
  "num_ctx prompt = push_bit (bit_length (token_estimate prompt - 1)) 1"

text \<open>
  \<open>response.raise_for_status()\<close> raises \<open>HTTPError\<close> for the status codes 400 to 599.
\<close>

definition raise_for_status :: "response \<Rightarrow> exc option" where
  "raise_for_status r =
     (if 400 \<le> status_code r \<and> status_code r < 600
      then Some (HTTPError (status_code r)) else None)"

text \<open>
  Lines 215 to 218: a \<open>RequestException\<close> is reported and \<open>None\<close> (\<open>JNull\<close>) returned;
  any other exception leaves the function.
\<close>

definition on_exception :: "env \<Rightarrow> io \<Rightarrow> string \<Rightarrow> exc \<Rightarrow> json outcome \<times> io" where
  "on_exception e st ollama_url x =
     (if is_RequestException x
      then (Return JNull,
            print_err (''Make sure Ollama is running at '' @ ollama_url)
              (print_err (''Error connecting to Ollama: '' @ exc_str e x) st))
      else (Raise x, st))"

text \<open>
  Lines 192 to 218. \<open>result.get\<close> exists when the decoded body is a JSON object; on any
  other value the attribute lookup raises \<open>AttributeError\<close>.
\<close>

text \<open>Lines 200 to 211: the URL and the JSON body of the request.\<close>

definition ollama_request :: "string \<Rightarrow> string \<Rightarrow> string \<Rightarrow> request" where
  "ollama_request ollama_url model prompt =
     \<lparr>url = ollama_url @ ''/api/generate'', req_model = model, req_prompt = prompt,
      req_stream = False, req_temperature = 1 / 10, req_num_ctx = num_ctx prompt\<rparr>"

definition generate_ai_report_body ::
  "env \<Rightarrow> io \<Rightarrow> string \<Rightarrow> string \<Rightarrow> string \<Rightarrow> string \<Rightarrow> json outcome \<times> io" where
  "generate_ai_report_body e st report_text ollama_url model custom_prompt =
     (let prompt = make_prompt custom_prompt report_text in
      case http_post e (ollama_request ollama_url model prompt) of
        Inl x \<Rightarrow> on_exception e st ollama_url x
      | Inr response \<Rightarrow>
          (case raise_for_status response of
             Some x \<Rightarrow> on_exception e st ollama_url x
           | None \<Rightarrow>
               (case json_result response of
                  Inl x \<Rightarrow> on_exception e st ollama_url x
                | Inr result \<Rightarrow>
                    (case result of
                       JObject d \<Rightarrow>
                         (Return (case d ''response'' of
                                    Some v \<Rightarrow> v
                                  | None \<Rightarrow> JString ''No AI report generated''),
                          st)
                     | _ \<Rightarrow> on_exception e st ollama_url AttributeError))))"

definition generate_ai_report ::
  "env \<Rightarrow> io \<Rightarrow> string \<Rightarrow> string \<Rightarrow> string \<Rightarrow> string \<Rightarrow> json outcome \<times> io" where
  "generate_ai_report e st report_text ollama_url model custom_prompt =
     timed e ''generate_ai_report''
       (generate_ai_report_body e st report_text ollama_url model custom_prompt)"

section \<open>Notions used to state the properties\<close>

subsection \<open>Header lines and the records they open\<close>

text \<open>
  A well-formed header is a line that begins with \<open>Change\<close> and a space and splits
  into at least 4 tokens; a malformed header begins the same way and has fewer tokens.
  A description line begins with a tab.
\<close>

definition wf_header :: "string \<Rightarrow> bool" where
  "wf_header l = (startswith l ''Change '' \<and> 4 \<le> length (split_ws l))"

definition malformed_header :: "string \<Rightarrow> bool" where
  "malformed_header l = (startswith l ''Change '' \<and> length (split_ws l) < 4)"

definition tab_line :: "string \<Rightarrow> bool" where
  "tab_line l = startswith l [TAB]"

text \<open>
  The lines that follow a header, up to the next well-formed header, and the record
  that a well-formed header \<open>h\<close> followed by the lines \<open>body\<close> stands for.
\<close>

definition body_of :: "string list \<Rightarrow> string list" where
  "body_of ls = takeWhile (\<lambda>l. \<not> wf_header l) ls"

definition new_change :: "string \<Rightarrow> change" where
  "new_change l =
     \<lparr>number = split_ws l ! 1, date = split_ws l ! 3, header = l, description = []\<rparr>"

definition record_of :: "string \<Rightarrow> string list \<Rightarrow> change" where
  "record_of h body = (new_change h)\<lparr>description := filter tab_line body\<rparr>"

text \<open>
  The records of a listing, in order, each with the number of malformed headers
  among the lines of its body.
\<close>

fun records_of :: "string list \<Rightarrow> (change \<times> nat) list" where
  "records_of [] = []"
| "records_of (l # ls) =
     (if wf_header l
      then (record_of l (body_of ls), length (filter malformed_header (body_of ls)))
             # records_of ls
      else records_of ls)"

text \<open>
  What the parser returns for such a list of records: a record in the range once,
  and once more for each malformed header in its body.
\<close>

definition emitted :: "string \<Rightarrow> string option \<Rightarrow> (change \<times> nat) list \<Rightarrow> change list" where
  "emitted S E rs =
     concat (map (\<lambda>(c, k). replicate (Suc k) c)
               (filter (\<lambda>(c, k). in_range S E (date c)) rs))"

subsection \<open>The parser without the store\<close>

text \<open>
  The same loop on values: the record in progress and the number of times it has
  been appended to the result so far. It is related to the loop on the store by
  \<open>sim\<close>.
\<close>

type_synonym acur = "(change \<times> nat) option"

definition a_save :: "string \<Rightarrow> string option \<Rightarrow> acur \<Rightarrow> acur" where
  "a_save S E cur =
     (case cur of
        None \<Rightarrow> None
      | Some (c, k) \<Rightarrow> Some (c, if in_range S E (date c) then Suc k else k))"

definition a_out :: "acur \<Rightarrow> change list" where
  "a_out cur = (case cur of None \<Rightarrow> [] | Some (c, k) \<Rightarrow> replicate k c)"

fun a_run :: "string \<Rightarrow> string option \<Rightarrow> acur \<Rightarrow> string list \<Rightarrow> change list" where
  "a_run S E cur [] = a_out (a_save S E cur)"
| "a_run S E cur (l # ls) =
     (if startswith l ''Change '' then
        (if 4 \<le> length (split_ws l)
         then a_out (a_save S E cur) @ a_run S E (Some (new_change l, 0)) ls
         else a_run S E (a_save S E cur) ls)
      else (case cur of
              Some (c, k) \<Rightarrow>
                if startswith l [TAB]
                then a_run S E (Some (c\<lparr>description := description c @ [l]\<rparr>, k)) ls
                else a_run S E cur ls
            | None \<Rightarrow> a_run S E cur ls))"

definition sim :: "pstate \<Rightarrow> change list \<Rightarrow> acur \<Rightarrow> bool" where
  "sim st done cur =
     ((\<forall>b\<in>set (changes st). b < length (heap st)) \<and>
      (case cur of
         None \<Rightarrow> current_change st = None \<and> returned_changes st = done
       | Some (c, k) \<Rightarrow>
           (\<exists>a pre. current_change st = Some a \<and> a < length (heap st) \<and> heap st ! a = c \<and>
              changes st = pre @ replicate k a \<and> a \<notin> set pre \<and>
              map ((!) (heap st)) pre = done)))"

definition carried :: "string \<Rightarrow> string option \<Rightarrow> acur \<Rightarrow> string list \<Rightarrow> change list" where
  "carried S E cur body =
     (case cur of
        None \<Rightarrow> []
      | Some (c, k) \<Rightarrow>
          replicate (k + (if in_range S E (date c)
                          then Suc (length (filter malformed_header body)) else 0))
            (c\<lparr>description := description c @ filter tab_line body\<rparr>))"

subsection \<open>Dates as text\<close>

text \<open>
  The fixed-width, zero-padded form of a date: \<open>YYYY-MM-DD\<close> on the command line
  (\<open>sep\<close> is \<open>-\<close>) and \<open>YYYY/MM/DD\<close> in a listing (\<open>sep\<close> is \<open>/\<close>). \<open>date_le\<close> is the order
  of the calendar on year, month and day.
\<close>

fun zero_padded :: "nat \<Rightarrow> nat \<Rightarrow> string" where
  "zero_padded 0 n = []"
| "zero_padded (Suc k) n = zero_padded k (n div 10) @ [char_of (48 + n mod 10)]"

fun date_text :: "char \<Rightarrow> nat \<times> nat \<times> nat \<Rightarrow> string" where
  "date_text sep (y, m, d) =
     zero_padded 4 y @ [sep] @ zero_padded 2 m @ [sep] @ zero_padded 2 d"

fun date_le :: "nat \<times> nat \<times> nat \<Rightarrow> nat \<times> nat \<times> nat \<Rightarrow> bool" where
  "date_le (y, m, d) (y', m', d') =
     (y < y' \<or> (y = y' \<and> (m < m' \<or> (m = m' \<and> d \<le> d'))))"

fun date_ok :: "nat \<times> nat \<times> nat \<Rightarrow> bool" where
  "date_ok (y, m, d) = (y < 10000 \<and> m < 100 \<and> d < 100)"

subsection \<open>Example inputs\<close>

definition view_exclusion_first :: string where
  "view_exclusion_first =
     ''Client: ws'' @ [NL] @ ''View:'' @ [NL]
     @ [TAB] @ ''-//depot/main/old/... //ws/main/old/...'' @ [NL]
     @ [TAB] @ ''//depot/main/... //ws/main/...'' @ [NL]"

definition view_with_blank :: string where
  "view_with_blank =
     ''View:'' @ [NL]
     @ [TAB] @ ''//depot/a/... //ws/a/...'' @ [NL]
     @ ''  '' @ [NL]
     @ [TAB] @ ''//depot/b/... //ws/b/...''"

definition view_without_blank :: string where
  "view_without_blank =
     ''View:'' @ [NL]
     @ [TAB] @ ''//depot/a/... //ws/a/...'' @ [NL]
     @ [TAB] @ ''//depot/b/... //ws/b/...''"

definition listing_two :: string where
  "listing_two =
     ''Change 101 on 2024/01/05 by alice@ws'' @ [NL]
     @ [TAB] @ ''fix bug'' @ [NL]
     @ ''Change 102 on 2024/01/20 by alice@ws'' @ [NL]
     @ [TAB] @ ''add feature''"

definition listing_stray :: string where
  "listing_stray =
     [TAB] @ ''stray'' @ [NL]
     @ ''Change 101 on 2024/01/05 by alice@ws'' @ [NL]
     @ [TAB] @ ''fix bug'' @ [NL]
     @ ''notes'' @ [NL]
     @ [TAB] @ ''more'' @ [NL]
     @ ''Change 102 on 2024/01/20 by alice@ws'' @ [NL]
     @ [TAB] @ ''add feature''"

definition listing_tail :: string where
  "listing_tail =
     ''Change 102 on 2024/01/20 by alice@ws'' @ [NL]
     @ [TAB] @ ''add feature''"

definition listing_no_header :: string where
  "listing_no_header = [TAB] @ ''stray'' @ [NL] @ [TAB] @ ''lines''"

definition listing_malformed :: string where
  "listing_malformed =
     ''Change 101 on 2024/01/05 by alice@ws'' @ [NL]
     @ [TAB] @ ''fix bug'' @ [NL]
     @ ''Change 102'' @ [NL]
     @ [TAB] @ ''more'' @ [NL]
     @ ''Change 103 on 2024/01/20 by alice@ws'' @ [NL]
     @ [TAB] @ ''add feature''"

definition listing_one_header :: string where
  "listing_one_header =
     ''Change 101 on 2024/01/05 by alice@ws'' @ [NL]
     @ ''Change 102''"

definition io0 :: io where
  "io0 = \<lparr>spawned = [], err = []\<rparr>"

text \<open>A world in which every child process exits with status 2.\<close>

definition env_failing :: env where
  "env_failing =
     \<lparr>child = (\<lambda>n cmd. Inr \<lparr>returncode = 2, stdout = [],
                                 stderr = ''Connect to server failed''\<rparr>),
      exc_str = (\<lambda>x. ''command failed''),
      now = ''2024-02-01 10:00:00'',
      elapsed = (\<lambda>name. ''0.001''),
      http_post = (\<lambda>r. Inl ConnectionError)\<rparr>"

text \<open>
  A world in which the pending listing is \<open>listing_two\<close> and the submitted listing has
  one change.
\<close>

definition submitted_short :: string where
  "submitted_short = ''Change 90 on 2024/01/03 by alice@ws tidy'' @ [NL]"

definition submitted_long :: string where
  "submitted_long =
     ''Change 90 on 2024/01/03 by alice@ws'' @ [NL, NL] @ [TAB] @ ''tidy'' @ [NL]"

definition env_listing :: env where
  "env_listing =
     \<lparr>child = (\<lambda>n cmd. Inr \<lparr>returncode = 0,
                 stdout = (if n = 0 then listing_two
                           else if n = 1 then submitted_short else submitted_long),
                 stderr = []\<rparr>),
      exc_str = (\<lambda>x. ''error''),
      now = ''2024-02-01 10:00:00'',
      elapsed = (\<lambda>name. ''0.001''),
      http_post = (\<lambda>r. Inl ConnectionError)\<rparr>"

text \<open>Worlds that differ in what the HTTP exchange does.\<close>

definition env_http :: "(exc + response) \<Rightarrow> env" where
  "env_http answer =
     \<lparr>child = (\<lambda>n cmd. Inl (OSError ''no p4'')),
      exc_str = (\<lambda>x. ''error''),
      now = ''2024-02-01 10:00:00'',
      elapsed = (\<lambda>name. ''0.001''),
      http_post = (\<lambda>r. answer)\<rparr>"

text \<open>
  A response with status 300 (Multiple Choices) carries a body and is not followed as
  a redirect; here the body is a JSON object with the field \<open>response\<close>.
\<close>

definition response_300 :: response where
  "response_300 =
     \<lparr>status_code = 300,
      json_result = Inr (JObject [''response'' \<mapsto> JString ''summary''])\<rparr>"

definition response_with_field :: response where
  "response_with_field =
     \<lparr>status_code = 200,
      json_result = Inr (JObject [''response'' \<mapsto> JString ''summary''])\<rparr>"

definition response_bad_json :: response where
  "response_bad_json =
     \<lparr>status_code = 200, json_result = Inl (OtherRequestException ''no JSON'')\<rparr>"

definition response_500 :: response where
  "response_500 =
     \<lparr>status_code = 500, json_result = Inl (OtherRequestException ''no JSON'')\<rparr>"

definition response_no_field :: response where
  "response_no_field =
     \<lparr>status_code = 200, json_result = Inr (JObject [''done'' \<mapsto> JBool True])\<rparr>"

section \<open>The context-size hint\<close>

lemma token_estimate_div: "token_estimate p = (2 * int (length p)) div 3"
proof -
  have "(of_nat (length p) / 3 :: rat) * 2 = of_int (2 * int (length p)) / of_int 3"
    by simp
  then have "\<lfloor>(of_nat (length p) / 3 :: rat) * 2\<rfloor> = (2 * int (length p)) div 3"
    by (simp only: floor_divide_of_int_eq)
  then show ?thesis by (simp add: token_estimate_def py_int_def)
qed

lemma bits_less: "n < 2 ^ bits n"
proof (induction n rule: bits.induct)
  case (1 n)
  show ?case
  proof (cases "n = 0")
    case True then show ?thesis by simp
  next
    case False
    with 1 have "n div 2 < 2 ^ bits (n div 2)" by simp
    then have "n < 2 * 2 ^ bits (n div 2)" by linarith
    then show ?thesis using False by (subst bits.simps) simp
  qed
qed

lemma bits_le: "n < 2 ^ k \<Longrightarrow> bits n \<le> k"
proof (induction n arbitrary: k rule: bits.induct)
  case (1 n)
  show ?case
  proof (cases "n = 0")
    case True then show ?thesis by simp
  next
    case False
    then obtain k' where k: "k = Suc k'" using "1.prems" by (cases k) auto
    then have "n div 2 < 2 ^ k'" using "1.prems" by auto
    with 1 False have "bits (n div 2) \<le> k'" by simp
    then show ?thesis using False k by (subst bits.simps) simp
  qed
qed

lemma bits_mono: "m \<le> n \<Longrightarrow> bits m \<le> bits n"
  by (rule bits_le) (use bits_less[of n] in linarith)

lemma num_ctx_pow: "num_ctx p = 2 ^ bit_length (token_estimate p - 1)"
  by (simp add: num_ctx_def push_bit_eq_mult)

lemma length_make_prompt: "length (make_prompt c r) = length c + 2 + length r"
  by (simp add: make_prompt_def)

lemma token_estimate_pos: "1 \<le> token_estimate (make_prompt c r)"
  by (simp add: token_estimate_div length_make_prompt)

lemma token_estimate_mono:
  "length p \<le> length q \<Longrightarrow> token_estimate p \<le> token_estimate q"
  by (simp add: token_estimate_div zdiv_mono1)

lemma token_estimate_floor:
  "token_estimate p = \<lfloor>(of_nat (length p) / 3 :: rat) * 2\<rfloor>"
  by (simp add: token_estimate_def py_int_def)

text \<open>
  C5. For every prompt that \<open>generate_ai_report\<close> builds (the custom prompt, a blank
  line, the report), the context size is \<open>int((len(prompt) / 3) * 2)\<close>, the floor of
  two thirds of the length, rounded up to the next power of two: it is a power of
  two, it is not below that number, and no smaller power of two is. The estimate
  the code computes is that number, \<open>2 * len(prompt) div 3\<close>. The context size is at
  least 1, and a prompt that is not shorter gets a context size that is not smaller.
\<close>

theorem num_ctx_power_of_two:
  "(\<exists>k. num_ctx (make_prompt c r) = 2 ^ k
        \<and> \<lfloor>(of_nat (length (make_prompt c r)) / 3 :: rat) * 2\<rfloor> \<le> 2 ^ k
        \<and> (\<forall>j. \<lfloor>(of_nat (length (make_prompt c r)) / 3 :: rat) * 2\<rfloor> \<le> 2 ^ j
               \<longrightarrow> k \<le> j))
   \<and> token_estimate (make_prompt c r)
       = \<lfloor>(of_nat (length (make_prompt c r)) / 3 :: rat) * 2\<rfloor>
   \<and> token_estimate (make_prompt c r) = (2 * int (length (make_prompt c r))) div 3
   \<and> 1 \<le> num_ctx (make_prompt c r)
   \<and> (length (make_prompt c r) \<le> length (make_prompt c' r')
        \<longrightarrow> num_ctx (make_prompt c r) \<le> num_ctx (make_prompt c' r'))"
proof -
  let ?p = "make_prompt c r" and ?q = "make_prompt c' r'"
  let ?v = "token_estimate ?p"
  let ?m = "nat (?v - 1)"
  have fl: "?v = \<lfloor>(of_nat (length ?p) / 3 :: rat) * 2\<rfloor>" by (rule token_estimate_floor)
  have dv: "?v = (2 * int (length ?p)) div 3" by (rule token_estimate_div)
  have pos: "1 \<le> ?v" by (rule token_estimate_pos)
  have bl: "bit_length (?v - 1) = bits ?m" using pos by (simp add: bit_length_def)
  have a: "num_ctx ?p = 2 ^ bits ?m" by (simp add: num_ctx_pow bl)
  have "int ?m < 2 ^ bits ?m" using bits_less[of ?m]
    by (metis of_nat_less_iff of_nat_numeral of_nat_power)
  then have b: "?v \<le> 2 ^ bits ?m" using pos by simp
  have c: "bits ?m \<le> j" if "?v \<le> 2 ^ j" for j
  proof (rule bits_le)
    have "int ?m < 2 ^ j" using that pos by simp
    then show "?m < 2 ^ j" by (metis of_nat_less_iff of_nat_numeral of_nat_power)
  qed
  have d: "1 \<le> num_ctx ?p" by (simp add: a)
  have e: "num_ctx ?p \<le> num_ctx ?q" if "length ?p \<le> length ?q"
  proof -
    have "?v \<le> token_estimate ?q" using that by (rule token_estimate_mono)
    then have "?m \<le> nat (token_estimate ?q - 1)" by simp
    then have "bits ?m \<le> bits (nat (token_estimate ?q - 1))" by (rule bits_mono)
    moreover have "bit_length (token_estimate ?q - 1) = bits (nat (token_estimate ?q - 1))"
      using token_estimate_pos[of c' r'] by (simp add: bit_length_def)
    ultimately show ?thesis by (simp add: num_ctx_pow bl)
  qed
  have "\<exists>k. num_ctx ?p = 2 ^ k \<and> ?v \<le> 2 ^ k \<and> (\<forall>j. ?v \<le> 2 ^ j \<longrightarrow> k \<le> j)"
    using a b c by blast
  then have "\<exists>k. num_ctx ?p = 2 ^ k
        \<and> \<lfloor>(of_nat (length ?p) / 3 :: rat) * 2\<rfloor> \<le> 2 ^ k
        \<and> (\<forall>j. \<lfloor>(of_nat (length ?p) / 3 :: rat) * 2\<rfloor> \<le> 2 ^ j \<longrightarrow> k \<le> j)"
    by (simp only: fl)
  with fl dv d e show ?thesis by blast
qed

theorem num_ctx_power_of_two_witness:
  "length (make_prompt ''Summarise'' ''abc'')
     \<le> length (make_prompt ''Summarise this report'' ''abcdef'')
   \<and> num_ctx (make_prompt ''Summarise'' ''abc'')
     \<le> num_ctx (make_prompt ''Summarise this report'' ''abcdef'')
   \<and> length (make_prompt ''Summarise'' ''abc'') = 14
   \<and> token_estimate (make_prompt ''Summarise'' ''abc'') = 9
   \<and> num_ctx (make_prompt ''Summarise'' ''abc'') = 16
   \<and> length (make_prompt ''Summarise this report'' ''abcdef'') = 29
   \<and> token_estimate (make_prompt ''Summarise this report'' ''abcdef'') = 19
   \<and> num_ctx (make_prompt ''Summarise this report'' ''abcdef'') = 32"
proof -
  have l1: "length (make_prompt ''Summarise'' ''abc'') = 14"
    and l2: "length (make_prompt ''Summarise this report'' ''abcdef'') = 29"
    by (simp_all add: make_prompt_def)
  have le: "length (make_prompt ''Summarise'' ''abc'')
     \<le> length (make_prompt ''Summarise this report'' ''abcdef'')"
    by (simp add: l1 l2)
  have v1: "num_ctx (make_prompt ''Summarise'' ''abc'') = 16"
    and v2: "num_ctx (make_prompt ''Summarise this report'' ''abcdef'') = 32"
    by code_simp+
  from num_ctx_power_of_two[of "''Summarise''" "''abc''" "''Summarise this report''" "''abcdef''"]
  have t1: "token_estimate (make_prompt ''Summarise'' ''abc'') = 9"
    and m: "num_ctx (make_prompt ''Summarise'' ''abc'')
      \<le> num_ctx (make_prompt ''Summarise this report'' ''abcdef'')"
    using le by (simp_all add: l1)
  from num_ctx_power_of_two[of "''Summarise this report''" "''abcdef''" "''x''" "''y''"]
  have t2: "token_estimate (make_prompt ''Summarise this report'' ''abcdef'') = 19"
    by (simp add: l2)
  from le m l1 t1 v1 l2 t2 v2 show ?thesis by blast
qed

section \<open>The View section\<close>

lemma strip_empty_iff: "strip l = [] \<longleftrightarrow> (\<forall>c\<in>set l. isspace c)"
proof
  assume s: "strip l = []"
  show "\<forall>c\<in>set l. isspace c"
  proof (cases "dropWhile isspace l")
    case Nil
    then show ?thesis by (simp add: dropWhile_eq_Nil_conv)
  next
    case (Cons x xs)
    then have "\<not> isspace x" using hd_dropWhile[of isspace l] by simp
    moreover from s Cons have "isspace x" by (simp add: strip_def dropWhile_eq_Nil_conv)
    ultimately show ?thesis by simp
  qed
next
  assume "\<forall>c\<in>set l. isspace c"
  then have "dropWhile isspace l = []" by (induction l) auto
  then show "strip l = []" by (simp only: strip_def rev.simps dropWhile.simps)
qed

lemma blank_not_view: "strip l = [] \<Longrightarrow> \<not> startswith l ''View:''"
  by (cases l) (auto simp: strip_empty_iff startswith_def isspace_def)

lemma view_lines_blank:
  "strip l = [] \<Longrightarrow> view_lines v acc (pre @ l # rest) = view_lines v acc (pre @ rest)"
proof (induction pre arbitrary: v acc)
  case Nil
  then show ?case using blank_not_view[OF Nil] by simp
next
  case (Cons x pre)
  then show ?case by (simp split: list.splits)
qed

text \<open>
  C2, at the failing input: a View section whose exclusion mapping comes before the
  normal mapping. The stripped exclusion line begins with \<open>-\<close>, not with \<open>//\<close>, so the
  loop stops there and the normal depot path that follows is not returned.
\<close>

theorem exclusion_mapping_stops_view:
  "view_depot_paths view_exclusion_first = []"
  by code_simp

text \<open>
  C10. A line of the workspace definition that is empty after stripping is skipped:
  the resolver returns for the text what it returns for the text without that line,
  so the depot paths listed after a blank line of the View section are collected.
\<close>

theorem blank_view_line_skipped:
  assumes "strip l = []"
    and "split_nl output = pre @ l # rest"
    and "split_nl output' = pre @ rest"
  shows "view_depot_paths output = view_depot_paths output'"
  using assms by (simp add: view_depot_paths_def view_lines_blank)

theorem blank_view_line_skipped_witness:
  "strip ''  '' = []
   \<and> split_nl view_with_blank
       = [''View:'', TAB # ''//depot/a/... //ws/a/...''] @ ''  '' # [TAB # ''//depot/b/... //ws/b/...'']
   \<and> split_nl view_without_blank
       = [''View:'', TAB # ''//depot/a/... //ws/a/...''] @ [TAB # ''//depot/b/... //ws/b/...'']
   \<and> view_depot_paths view_with_blank = view_depot_paths view_without_blank
   \<and> view_depot_paths view_with_blank = [''//depot/a/...'', ''//depot/b/...'']"
proof -
  have h1: "strip ''  '' = []" by code_simp
  have h2: "split_nl view_with_blank
       = [''View:'', TAB # ''//depot/a/... //ws/a/...''] @ ''  '' # [TAB # ''//depot/b/... //ws/b/...'']"
    by code_simp
  have h3: "split_nl view_without_blank
       = [''View:'', TAB # ''//depot/a/... //ws/a/...''] @ [TAB # ''//depot/b/... //ws/b/...'']"
    by code_simp
  have h4: "view_depot_paths view_with_blank = [''//depot/a/...'', ''//depot/b/...'']"
    by code_simp
  from blank_view_line_skipped[OF h1 h2 h3] h1 h2 h3 h4 show ?thesis by blast
qed

section \<open>The parser on the store and the parser on values\<close>

lemma sim_returned:
  "sim st done cur \<Longrightarrow> returned_changes st = done @ a_out cur"
  by (auto simp: sim_def returned_changes_def a_out_def map_replicate_const split: option.splits)

lemma replicate_snoc: "replicate k a @ [a] = replicate (Suc k) a"
  by (induction k) auto

lemma sim_save:
  "sim st done cur \<Longrightarrow> sim (save_current S E st) done (a_save S E cur)"
proof (cases cur)
  case None
  assume "sim st done cur"
  with None show ?thesis by (simp add: sim_def save_current_def a_save_def)
next
  case (Some ck)
  assume s: "sim st done cur"
  obtain c k where ck: "ck = (c, k)" by (cases ck)
  from s Some ck obtain a pre where a: "current_change st = Some a" "a < length (heap st)"
    "heap st ! a = c" "changes st = pre @ replicate k a" "a \<notin> set pre"
    "map ((!) (heap st)) pre = done"
    and v: "\<forall>b\<in>set (changes st). b < length (heap st)"
    by (auto simp: sim_def)
  show ?thesis
  proof (cases "in_range S E (date c)")
    case True
    have "changes st @ [a] = pre @ replicate (Suc k) a"
      using a(4) replicate_snoc[of k a] by simp
    then show ?thesis using a v True Some ck
      unfolding sim_def save_current_def a_save_def
      by (auto intro!: exI[of _ pre])
  next
    case False
    then show ?thesis using a v Some ck s
      unfolding sim_def save_current_def a_save_def by auto
  qed
qed

lemma sim_valid: "sim st done cur \<Longrightarrow> \<forall>b\<in>set (changes st). b < length (heap st)"
  by (simp add: sim_def)

lemma sim_new:
  assumes "sim st done cur"
  shows "sim (st\<lparr>heap := heap st @ [c], current_change := Some (length (heap st))\<rparr>)
           (done @ a_out cur) (Some (c, 0))"
proof -
  have v: "\<forall>b\<in>set (changes st). b < length (heap st)" using assms by (rule sim_valid)
  have r: "map ((!) (heap st)) (changes st) = done @ a_out cur"
    using sim_returned[OF assms] by (simp add: returned_changes_def)
  have "map ((!) (heap st @ [c])) (changes st) = map ((!) (heap st)) (changes st)"
    using v by (simp add: nth_append)
  moreover have "length (heap st) \<notin> set (changes st)" using v by auto
  ultimately show ?thesis using v r
    by (auto simp: sim_def less_Suc_eq)
qed

lemma sim_append:
  assumes "sim st done (Some (c, k))"
  shows "\<exists>a. current_change st = Some a \<and>
     sim (st\<lparr>heap := (heap st)[a := (heap st ! a)\<lparr>description := description (heap st ! a) @ [l]\<rparr>]\<rparr>)
       done (Some (c\<lparr>description := description c @ [l]\<rparr>, k))"
proof -
  from assms obtain a pre where a: "current_change st = Some a" "a < length (heap st)"
    "heap st ! a = c" "changes st = pre @ replicate k a" "a \<notin> set pre"
    "map ((!) (heap st)) pre = done"
    and v: "\<forall>b\<in>set (changes st). b < length (heap st)"
    by (auto simp: sim_def)
  let ?h = "(heap st)[a := (heap st ! a)\<lparr>description := description (heap st ! a) @ [l]\<rparr>]"
  have "\<And>x. x \<in> set pre \<Longrightarrow> ?h ! x = heap st ! x"
  proof -
    fix x assume "x \<in> set pre"
    then have "a \<noteq> x" using a(5) by auto
    then show "?h ! x = heap st ! x" by (rule nth_list_update_neq)
  qed
  then have "map ((!) ?h) pre = map ((!) (heap st)) pre"
    by (intro map_cong) auto
  then show ?thesis using a v
    by (auto simp: sim_def intro!: exI[of _ pre])
qed

lemma sim_cur_None: "sim st done None \<Longrightarrow> current_change st = None"
  by (simp add: sim_def)

lemma sim_line:
  "sim st done cur \<Longrightarrow>
   returned_changes (save_current S E (parse_lines S E st ls)) = done @ a_run S E cur ls"
proof (induction ls arbitrary: st "done" cur)
  case Nil
  then show ?case using sim_returned[OF sim_save[OF Nil]] by simp
next
  case (Cons l ls)
  show ?case
  proof (cases "startswith l ''Change ''")
    case True
    note hd = True
    show ?thesis
    proof (cases "4 \<le> length (split_ws l)")
      case True
      have "sim (parse_line S E st l) (done @ a_out (a_save S E cur)) (Some (new_change l, 0))"
        using sim_new[OF sim_save[OF Cons.prems], of S E "new_change l"] hd True
        by (simp add: parse_line_def Let_def new_change_def)
      from Cons.IH[OF this] show ?thesis using hd True by simp
    next
      case False
      have "sim (parse_line S E st l) done (a_save S E cur)"
        using sim_save[OF Cons.prems, of S E] hd False
        by (simp add: parse_line_def Let_def)
      from Cons.IH[OF this] show ?thesis using hd False by simp
    qed
  next
    case False
    note nh = False
    show ?thesis
    proof (cases cur)
      case None
      have "parse_line S E st l = st"
        using nh sim_cur_None Cons.prems None by (simp add: parse_line_def)
      then show ?thesis using Cons.IH[OF Cons.prems] nh None by simp
    next
      case (Some ck)
      obtain c k where ck: "ck = (c, k)" by (cases ck)
      show ?thesis
      proof (cases "startswith l [TAB]")
        case True
        from sim_append[of st "done" c k l] Cons.prems Some ck
        obtain a where a: "current_change st = Some a"
          "sim (st\<lparr>heap := (heap st)[a := (heap st ! a)\<lparr>description := description (heap st ! a) @ [l]\<rparr>]\<rparr>)
             done (Some (c\<lparr>description := description c @ [l]\<rparr>, k))"
          by auto
        have "parse_line S E st l = st\<lparr>heap := (heap st)[a := (heap st ! a)\<lparr>description := description (heap st ! a) @ [l]\<rparr>]\<rparr>"
          using nh True a(1) by (simp add: parse_line_def)
        with Cons.IH[OF a(2)] show ?thesis using nh True Some ck by simp
      next
        case False
        have "parse_line S E st l = st"
          using nh False by (simp add: parse_line_def split: option.splits)
        then show ?thesis using Cons.IH[OF Cons.prems] nh False Some ck by simp
      qed
    qed
  qed
qed

lemma sim_init: "sim init_pstate [] None"
  by (simp add: sim_def init_pstate_def returned_changes_def)

lemma parse_a_run:
  "parse_pending_changes output start_date end_date =
     a_run (start_date_str start_date) (end_date_str end_date) None (split_nl output)"
  using sim_line[OF sim_init] by (simp add: parse_pending_changes_def Let_def)


lemma change_not_tab: "startswith l ''Change '' \<Longrightarrow> \<not> startswith l [TAB]"
  by (cases l) (auto simp: startswith_def TAB_def)

lemma records_of_dropWhile:
  "records_of (dropWhile (\<lambda>l. \<not> wf_header l) ls) = records_of ls"
  by (induction ls) auto

lemma emitted_Nil: "emitted S E [] = []"
  by (simp add: emitted_def)

lemma emitted_Cons:
  "emitted S E ((c, k) # rs) =
     (if in_range S E (date c) then replicate (Suc k) c else []) @ emitted S E rs"
  by (simp add: emitted_def)

lemma a_run_segments:
  "a_run S E cur ls = carried S E cur (body_of ls) @ emitted S E (records_of ls)"
proof (induction ls arbitrary: cur)
  case Nil
  show ?case
    by (auto simp: carried_def body_of_def a_out_def a_save_def emitted_Nil split: option.splits)
next
  case (Cons l ls)
  show ?case
  proof (cases "startswith l ''Change ''")
    case True
    note hd = True
    show ?thesis
    proof (cases "4 \<le> length (split_ws l)")
      case True
      then have wf: "wf_header l" using hd by (simp add: wf_header_def)
      have b: "body_of (l # ls) = []" using wf by (simp add: body_of_def)
      have "a_run S E cur (l # ls) =
              a_out (a_save S E cur) @ a_run S E (Some (new_change l, 0)) ls"
        using hd True by simp
      also have "a_run S E (Some (new_change l, 0)) ls =
          carried S E (Some (new_change l, 0)) (body_of ls) @ emitted S E (records_of ls)"
        by (rule Cons.IH)
      also have "carried S E (Some (new_change l, 0)) (body_of ls) @ emitted S E (records_of ls)
          = emitted S E (records_of (l # ls))"
        using wf by (simp add: carried_def emitted_Cons record_of_def new_change_def)
      also have "a_out (a_save S E cur) = carried S E cur (body_of (l # ls))"
        by (auto simp: b carried_def a_out_def a_save_def split: option.splits)
      finally show ?thesis .
    next
      case False
      then have nwf: "\<not> wf_header l" and mal: "malformed_header l"
        using hd by (simp_all add: wf_header_def malformed_header_def)
      have nt: "\<not> tab_line l" using change_not_tab[OF hd] by (simp add: tab_line_def)
      have b: "body_of (l # ls) = l # body_of ls" using nwf by (simp add: body_of_def)
      have "a_run S E cur (l # ls) = a_run S E (a_save S E cur) ls"
        using hd False by simp
      also have "\<dots> = carried S E (a_save S E cur) (body_of ls) @ emitted S E (records_of ls)"
        by (rule Cons.IH)
      also have "carried S E (a_save S E cur) (body_of ls) = carried S E cur (body_of (l # ls))"
        using mal nt by (auto simp: b carried_def a_save_def split: option.splits)
      also have "records_of ls = records_of (l # ls)" using nwf by simp
      finally show ?thesis .
    qed
  next
    case False
    then have nwf: "\<not> wf_header l" and nmal: "\<not> malformed_header l"
      by (simp_all add: wf_header_def malformed_header_def)
    have b: "body_of (l # ls) = l # body_of ls" using nwf by (simp add: body_of_def)
    have r: "records_of (l # ls) = records_of ls" using nwf by simp
    show ?thesis
    proof (cases cur)
      case None
      then show ?thesis using False Cons.IH[of None] r by (simp add: carried_def)
    next
      case (Some ck)
      obtain c k where ck: "ck = (c, k)" by (cases ck)
      show ?thesis
      proof (cases "startswith l [TAB]")
        case True
        then have t: "tab_line l" by (simp add: tab_line_def)
        have "a_run S E cur (l # ls) =
                a_run S E (Some (c\<lparr>description := description c @ [l]\<rparr>, k)) ls"
          using False True Some ck by simp
        also have "\<dots> = carried S E (Some (c\<lparr>description := description c @ [l]\<rparr>, k)) (body_of ls)
              @ emitted S E (records_of ls)"
          by (rule Cons.IH)
        also have "carried S E (Some (c\<lparr>description := description c @ [l]\<rparr>, k)) (body_of ls)
              = carried S E cur (body_of (l # ls))"
          using t nmal Some ck by (simp add: b carried_def)
        finally show ?thesis using r by simp
      next
        case nt: False
        then have t: "\<not> tab_line l" by (simp add: tab_line_def)
        have "a_run S E cur (l # ls) = a_run S E cur ls"
          using False nt Some ck by simp
        also have "\<dots> = carried S E cur (body_of ls) @ emitted S E (records_of ls)"
          by (rule Cons.IH)
        also have "carried S E cur (body_of ls) = carried S E cur (body_of (l # ls))"
          using t nmal Some ck by (simp add: b carried_def)
        finally show ?thesis using r by simp
      qed
    qed
  qed
qed

lemma parse_pending_changes_emitted:
  "parse_pending_changes output start_date end_date =
     emitted (start_date_str start_date) (end_date_str end_date) (records_of (split_nl output))"
  by (simp add: parse_a_run a_run_segments carried_def)

section \<open>Dates as text and the order of strings\<close>

lemma str_le_refl: "str_le a a"
  by (induction a) auto

lemma str_le_append:
  "length x = length y \<Longrightarrow>
   str_le (x @ s) (y @ t) = (if x = y then str_le s t else str_le x y)"
proof (induction x y rule: list_induct2)
  case Nil
  then show ?case by simp
next
  case (Cons a x b y)
  have "(of_char a :: nat) = of_char b \<longleftrightarrow> a = b" by simp
  then show ?case using Cons by (auto simp: less_le)
qed

lemma length_zero_padded: "length (zero_padded k n) = k"
  by (induction k arbitrary: n) auto

lemma of_char_digit: "(of_char (char_of (48 + n mod 10 :: nat)) :: nat) = 48 + n mod 10"
proof -
  have "n mod 10 < 10" by simp
  then have "48 + n mod 10 < 256" by linarith
  then show ?thesis by simp
qed

lemma digit_eq_iff:
  "char_of (48 + n mod 10 :: nat) = char_of (48 + m mod 10 :: nat) \<longleftrightarrow> n mod 10 = m mod 10"
proof
  assume "char_of (48 + n mod 10 :: nat) = char_of (48 + m mod 10 :: nat)"
  then have "(of_char (char_of (48 + n mod 10 :: nat)) :: nat) = of_char (char_of (48 + m mod 10 :: nat))"
    by simp
  then show "n mod 10 = m mod 10" by (simp only: of_char_digit)
qed simp

lemma zero_padded_eq_iff:
  "n < 10 ^ k \<Longrightarrow> m < 10 ^ k \<Longrightarrow> zero_padded k n = zero_padded k m \<longleftrightarrow> n = m"
proof (induction k arbitrary: n m)
  case 0
  then show ?case by simp
next
  case (Suc k)
  have n: "n div 10 < 10 ^ k" and m: "m div 10 < 10 ^ k"
    using Suc.prems by (simp_all add: less_mult_imp_div_less mult.commute)
  have "zero_padded (Suc k) n = zero_padded (Suc k) m \<longleftrightarrow>
          n div 10 = m div 10 \<and> n mod 10 = m mod 10"
    using Suc.IH[OF n m] by (simp add: digit_eq_iff)
  also have "\<dots> \<longleftrightarrow> n = m"
    by (metis div_mult_mod_eq)
  finally show ?case .
qed

lemma zero_padded_le_iff:
  "n < 10 ^ k \<Longrightarrow> m < 10 ^ k \<Longrightarrow> str_le (zero_padded k n) (zero_padded k m) \<longleftrightarrow> n \<le> m"
proof (induction k arbitrary: n m)
  case 0
  then show ?case by simp
next
  case (Suc k)
  have n: "n div 10 < 10 ^ k" and m: "m div 10 < 10 ^ k"
    using Suc.prems by (simp_all add: less_mult_imp_div_less mult.commute)
  have last: "str_le [char_of (48 + n mod 10)] [char_of (48 + m mod 10)] \<longleftrightarrow> n mod 10 \<le> m mod 10"
    by (simp only: str_le.simps of_char_digit) auto
  have "str_le (zero_padded (Suc k) n) (zero_padded (Suc k) m) \<longleftrightarrow>
        (if n div 10 = m div 10 then n mod 10 \<le> m mod 10 else n div 10 \<le> m div 10)"
    using Suc.IH[OF n m] zero_padded_eq_iff[OF n m] last
    by (simp add: str_le_append length_zero_padded)
  also have "\<dots> \<longleftrightarrow> n \<le> m"
  proof (cases "n div 10 = m div 10")
    case True
    then show ?thesis by (metis True div_mult_mod_eq add_le_cancel_left)
  next
    case False
    have "n div 10 \<le> m div 10 \<longleftrightarrow> n \<le> m"
    proof
      assume "n div 10 \<le> m div 10"
      with False have "n div 10 < m div 10" by simp
      then show "n \<le> m" by (meson div_le_mono leD nle_le)
    next
      assume "n \<le> m" then show "n div 10 \<le> m div 10" by (rule div_le_mono)
    qed
    with False show ?thesis by simp
  qed
  finally show ?case .
qed

lemma date_text_le_iff:
  assumes "date_ok a" "date_ok b"
  shows "str_le (date_text sep a) (date_text sep b) \<longleftrightarrow> date_le a b"
proof -
  obtain y m d where a: "a = (y, m, d)" by (cases a)
  obtain y' m' d' where b: "b = (y', m', d')" by (cases b)
  have yb: "y < 10 ^ 4" "y' < 10 ^ 4" and bm: "m < 10 ^ 2" "m' < 10 ^ 2" and bd: "d < 10 ^ 2" "d' < 10 ^ 2"
    using assms a b by simp_all
  have sep: "str_le ([sep] @ u) ([sep] @ v) = str_le u v" for u v
    by simp
  have "str_le (date_text sep a) (date_text sep b) \<longleftrightarrow>
        (if zero_padded 4 y = zero_padded 4 y'
         then (if zero_padded 2 m = zero_padded 2 m'
               then str_le (zero_padded 2 d) (zero_padded 2 d')
               else str_le (zero_padded 2 m) (zero_padded 2 m'))
         else str_le (zero_padded 4 y) (zero_padded 4 y'))"
    unfolding a b date_text.simps
    by (simp only: str_le_append length_zero_padded sep)
  also have "\<dots> \<longleftrightarrow> date_le a b"
    unfolding a b date_le.simps
    using zero_padded_eq_iff[OF yb] zero_padded_eq_iff[OF bm]
      zero_padded_le_iff[OF yb] zero_padded_le_iff[OF bm] zero_padded_le_iff[OF bd]
    by auto
  finally show ?thesis .
qed

lemma digit_not_dash: "char_of (48 + n mod 10 :: nat) \<noteq> CHR ''-''"
proof
  assume "char_of (48 + n mod 10 :: nat) = CHR ''-''"
  then have "(of_char (char_of (48 + n mod 10 :: nat)) :: nat) = of_char (CHR ''-'')" by simp
  then show False by (simp only: of_char_digit) simp
qed

lemma replace_dash_zero_padded: "replace_dash (zero_padded k n) = zero_padded k n"
  by (induction k arbitrary: n) (simp_all add: replace_dash_def digit_not_dash)

lemma replace_dash_append: "replace_dash (a @ b) = replace_dash a @ replace_dash b"
  by (simp add: replace_dash_def)

lemma replace_dash_date_text:
  "replace_dash (date_text (CHR ''-'') a) = date_text (CHR ''/'') a"
proof -
  obtain y m d where a: "a = (y, m, d)" by (cases a)
  have "replace_dash ''-'' = ''/''" by (simp add: replace_dash_def)
  then show ?thesis
    unfolding a date_text.simps by (simp only: replace_dash_append replace_dash_zero_padded)
qed

lemma date_text_not_Nil: "date_text sep a \<noteq> []"
  by (cases a) simp

lemma in_range_dates:
  assumes "date_ok t" "date_ok s" "case e of None \<Rightarrow> True | Some te \<Rightarrow> date_ok te"
  shows "in_range (start_date_str (date_text (CHR ''-'') s))
           (end_date_str (map_option (date_text (CHR ''-'')) e))
           (date_text (CHR ''/'') t)
         \<longleftrightarrow> date_le s t \<and> (case e of None \<Rightarrow> True | Some te \<Rightarrow> date_le t te)"
proof (cases e)
  case None
  then show ?thesis
    using date_text_le_iff[OF assms(2) assms(1)]
    by (simp add: in_range_def start_date_str_def end_date_str_def str_ge_def
        replace_dash_date_text)
next
  case (Some te)
  then have "date_ok te" using assms(3) by simp
  then show ?thesis
    using date_text_le_iff[OF assms(2) assms(1)] date_text_le_iff[OF assms(1), of te] Some
    by (simp add: in_range_def start_date_str_def end_date_str_def str_ge_def
        replace_dash_date_text date_text_not_Nil)
qed

section \<open>The records of a listing\<close>

lemma records_of_skip:
  "\<forall>l\<in>set pre. \<not> wf_header l \<Longrightarrow> records_of (pre @ ls) = records_of ls"
  by (induction pre) auto

lemma body_of_segment:
  "\<forall>l\<in>set body. \<not> wf_header l \<Longrightarrow> rest = [] \<or> wf_header (hd rest) \<Longrightarrow>
   body_of (body @ rest) = body"
  by (cases rest) (auto simp: body_of_def takeWhile_append2 intro: takeWhile_eq_all_conv[THEN iffD2])

lemma records_of_segment:
  assumes "\<forall>l\<in>set pre. \<not> wf_header l" "wf_header h" "\<forall>l\<in>set body. \<not> wf_header l"
    "rest = [] \<or> wf_header (hd rest)"
  shows "records_of (pre @ h # body @ rest) =
           (record_of h body, length (filter malformed_header body)) # records_of rest"
  using assms by (simp add: records_of_skip body_of_segment)

lemma records_of_member:
  "wf_header h \<Longrightarrow>
   (record_of h (body_of rest), length (filter malformed_header (body_of rest)))
     \<in> set (records_of (pre @ h # rest))"
  by (induction pre) auto

lemma set_emitted:
  "set (emitted S E rs) = {c. \<exists>k. (c, k) \<in> set rs \<and> in_range S E (date c)}"
  by (induction rs) (auto simp: emitted_Cons emitted_Nil)

lemma date_record_of: "date (record_of h body) = split_ws h ! 3"
  by (simp add: record_of_def new_change_def)

lemma records_of_no_header:
  "\<forall>l\<in>set ls. \<not> wf_header l \<Longrightarrow> records_of ls = []"
  by (induction ls) auto

lemma body_of_subset: "set (body_of ls) \<subseteq> set ls"
  by (auto simp: body_of_def dest: set_takeWhileD)

lemma emitted_well_formed:
  assumes "\<forall>l\<in>set ls. \<not> malformed_header l"
    and "\<forall>l\<in>set ls. wf_header l \<longrightarrow> in_range S E (split_ws l ! 3)"
  shows "emitted S E (records_of ls) = map fst (records_of ls)"
  using assms
proof (induction ls)
  case Nil
  then show ?case by (simp add: emitted_Nil)
next
  case (Cons l ls)
  have "filter malformed_header (body_of ls) = []"
    using Cons.prems(1) body_of_subset[of ls] by (auto simp: filter_empty_conv)
  then show ?case using Cons by (simp add: emitted_Cons date_record_of)
qed

lemma header_records_of: "map (\<lambda>r. header (fst r)) (records_of ls) = filter wf_header ls"
  by (induction ls) (simp_all add: record_of_def new_change_def)

lemma well_formed_listing_in_order:
  assumes "\<forall>l\<in>set (split_nl output). \<not> malformed_header l"
    and "\<forall>l\<in>set (split_nl output). wf_header l \<longrightarrow>
           in_range (start_date_str start_date) (end_date_str end_date) (split_ws l ! 3)"
  shows "map header (parse_pending_changes output start_date end_date)
           = filter wf_header (split_nl output)"
  using emitted_well_formed[OF assms] header_records_of[of "split_nl output"]
  by (simp add: parse_pending_changes_emitted o_def)

text \<open>
  C1, at the failing input: a listing with a malformed header (\<open>Change 102\<close>) between
  two well-formed ones. At the malformed header the record in progress is appended to
  the result and stays the record in progress, so it is appended a second time at the
  next header: record 101 is returned twice.
\<close>

theorem malformed_header_duplicates_record:
  "parse_pending_changes listing_malformed ''2024-01-01'' (Some ''2024-01-31'') =
     [\<lparr>number = ''101'', date = ''2024/01/05'',
       header = ''Change 101 on 2024/01/05 by alice@ws'',
       description = [TAB # ''fix bug'', TAB # ''more'']\<rparr>,
      \<lparr>number = ''101'', date = ''2024/01/05'',
       header = ''Change 101 on 2024/01/05 by alice@ws'',
       description = [TAB # ''fix bug'', TAB # ''more'']\<rparr>,
      \<lparr>number = ''103'', date = ''2024/01/20'',
       header = ''Change 103 on 2024/01/20 by alice@ws'',
       description = [TAB # ''add feature'']\<rparr>]"
  by code_simp

text \<open>
  C3, at the failing input: a listing with one well-formed header followed by a
  malformed header, and a range that covers its date. The parser returns two records,
  not one. (For a listing without malformed headers, \<open>well_formed_listing_in_order\<close>
  gives one record per well-formed header, in the order of the input.)
\<close>

theorem one_header_two_records:
  "length (filter wf_header (split_nl listing_one_header)) = 1
   \<and> length (parse_pending_changes listing_one_header ''2024-01-01'' (Some ''2024-01-31'')) = 2"
  by code_simp

text \<open>
  C4. The date filter is inclusive at both boundaries. For a well-formed header of the
  listing whose date token is the \<open>YYYY/MM/DD\<close> text of the date \<open>t\<close>, a start date
  that is the \<open>YYYY-MM-DD\<close> text of \<open>s\<close> and an end date that is absent or the text of
  \<open>te\<close>: the record of that header is in the result exactly when \<open>s \<le> t\<close> and, with
  an end date, \<open>t \<le> te\<close> in the order of the calendar. So a record dated on the
  start or on the end boundary is returned, and a record dated before the start (the
  day before it, for one) or after the end is not.
\<close>

theorem date_filter_inclusive:
  assumes "split_nl output = pre @ h # rest"
    and "wf_header h"
    and "split_ws h ! 3 = date_text (CHR ''/'') t"
    and "start_date = date_text (CHR ''-'') s"
    and "end_date = map_option (date_text (CHR ''-'')) e"
    and "date_ok t" and "date_ok s" and "case e of None \<Rightarrow> True | Some te \<Rightarrow> date_ok te"
  shows "record_of h (body_of rest) \<in> set (parse_pending_changes output start_date end_date)
         \<longleftrightarrow> date_le s t \<and> (case e of None \<Rightarrow> True | Some te \<Rightarrow> date_le t te)"
proof -
  let ?S = "start_date_str start_date" and ?E = "end_date_str end_date"
  let ?r = "record_of h (body_of rest)"
  have "?r \<in> set (parse_pending_changes output start_date end_date)
        \<longleftrightarrow> (\<exists>k. (?r, k) \<in> set (records_of (pre @ h # rest))) \<and> in_range ?S ?E (date ?r)"
    by (auto simp: parse_pending_changes_emitted set_emitted assms(1))
  also have "\<dots> \<longleftrightarrow> in_range ?S ?E (date ?r)"
    using records_of_member[OF assms(2), of rest pre] by blast
  also have "\<dots> \<longleftrightarrow> date_le s t \<and> (case e of None \<Rightarrow> True | Some te \<Rightarrow> date_le t te)"
    using in_range_dates[OF assms(6,7,8)]
    by (simp add: date_record_of assms(3,4,5))
  finally show ?thesis .
qed

theorem date_filter_inclusive_witness:
  "split_nl listing_two =
     [] @ ''Change 101 on 2024/01/05 by alice@ws''
       # [TAB # ''fix bug'', ''Change 102 on 2024/01/20 by alice@ws'', TAB # ''add feature'']
   \<and> wf_header ''Change 101 on 2024/01/05 by alice@ws''
   \<and> record_of ''Change 101 on 2024/01/05 by alice@ws''
        (body_of [TAB # ''fix bug'', ''Change 102 on 2024/01/20 by alice@ws'', TAB # ''add feature''])
       \<in> set (parse_pending_changes listing_two ''2024-01-05'' (Some ''2024-01-31''))
   \<and> record_of ''Change 101 on 2024/01/05 by alice@ws''
        (body_of [TAB # ''fix bug'', ''Change 102 on 2024/01/20 by alice@ws'', TAB # ''add feature''])
       \<notin> set (parse_pending_changes listing_two ''2024-01-06'' (Some ''2024-01-31''))"
proof -
  let ?h = "''Change 101 on 2024/01/05 by alice@ws''"
  let ?rest = "[TAB # ''fix bug'', ''Change 102 on 2024/01/20 by alice@ws'', TAB # ''add feature'']"
  have h1: "split_nl listing_two = [] @ ?h # ?rest" by code_simp
  have h2: "wf_header ?h" by code_simp
  have h3: "split_ws ?h ! 3 = date_text (CHR ''/'') (2024, 1, 5)" by code_simp
  have h4: "''2024-01-05'' = date_text (CHR ''-'') (2024, 1, 5)" by code_simp
  have h4': "''2024-01-06'' = date_text (CHR ''-'') (2024, 1, 6)" by code_simp
  have h5: "Some ''2024-01-31'' = map_option (date_text (CHR ''-'')) (Some (2024, 1, 31))"
    by code_simp
  have h6: "date_ok (2024, 1, 5)" "date_ok (2024, 1, 6)" by simp_all
  have h8: "case Some (2024, 1, 31) of None \<Rightarrow> True | Some te \<Rightarrow> date_ok te" by simp
  have a: "record_of ?h (body_of ?rest)
       \<in> set (parse_pending_changes listing_two ''2024-01-05'' (Some ''2024-01-31''))"
    using date_filter_inclusive[OF h1 h2 h3 h4 h5 h6(1) h6(1) h8] by simp
  have b: "record_of ?h (body_of ?rest)
       \<notin> set (parse_pending_changes listing_two ''2024-01-06'' (Some ''2024-01-31''))"
    using date_filter_inclusive[OF h1 h2 h3 h4' h5 h6(1) h6(2) h8] by simp
  from h1 h2 a b show ?thesis by blast
qed

text \<open>
  C8. A listing without a well-formed header gives no record, so its tab-indented
  lines are attached to nothing. In a listing whose lines are \<open>pre\<close>, a well-formed
  header \<open>h\<close>, the lines \<open>body\<close> up to the next well-formed header, and \<open>rest\<close>: the
  lines of \<open>pre\<close> contribute nothing, and the record of \<open>h\<close>, when its date is in the
  range, has as its description exactly the lines of \<open>body\<close> that begin with a tab,
  verbatim and in their order; it is followed by what the parser returns for \<open>rest\<close>.
  (The record is returned once, and once more for each malformed header in \<open>body\<close>.)
\<close>

theorem description_lines_attached:
  "((\<forall>l\<in>set (split_nl output). \<not> wf_header l)
      \<longrightarrow> parse_pending_changes output start_date end_date = [])
   \<and> (split_nl output = pre @ h # body @ rest
        \<and> (\<forall>l\<in>set pre. \<not> wf_header l) \<and> wf_header h \<and> (\<forall>l\<in>set body. \<not> wf_header l)
        \<and> (rest = [] \<or> wf_header (hd rest) \<and> split_nl output' = rest)
      \<longrightarrow> parse_pending_changes output start_date end_date =
            (if in_range (start_date_str start_date) (end_date_str end_date) (split_ws h ! 3)
             then replicate (Suc (length (filter malformed_header body)))
                    \<lparr>number = split_ws h ! 1, date = split_ws h ! 3, header = h,
                     description = filter (\<lambda>l. startswith l [TAB]) body\<rparr>
             else [])
            @ (if rest = [] then [] else parse_pending_changes output' start_date end_date))"
proof (intro conjI impI)
  assume "\<forall>l\<in>set (split_nl output). \<not> wf_header l"
  then show "parse_pending_changes output start_date end_date = []"
    by (simp add: parse_pending_changes_emitted records_of_no_header emitted_Nil)
next
  assume a: "split_nl output = pre @ h # body @ rest
        \<and> (\<forall>l\<in>set pre. \<not> wf_header l) \<and> wf_header h \<and> (\<forall>l\<in>set body. \<not> wf_header l)
        \<and> (rest = [] \<or> wf_header (hd rest) \<and> split_nl output' = rest)"
  have r: "record_of h body = \<lparr>number = split_ws h ! 1, date = split_ws h ! 3, header = h,
                    description = filter (\<lambda>l. startswith l [TAB]) body\<rparr>"
    by (simp add: record_of_def new_change_def tab_line_def[abs_def])
  have seg: "records_of (pre @ h # body @ rest) =
           (record_of h body, length (filter malformed_header body)) # records_of rest"
    using a by (intro records_of_segment) auto
  have rest: "emitted (start_date_str start_date) (end_date_str end_date) (records_of rest)
        = (if rest = [] then [] else parse_pending_changes output' start_date end_date)"
    using a by (auto simp: parse_pending_changes_emitted emitted_Nil)
  show "parse_pending_changes output start_date end_date =
            (if in_range (start_date_str start_date) (end_date_str end_date) (split_ws h ! 3)
             then replicate (Suc (length (filter malformed_header body)))
                    \<lparr>number = split_ws h ! 1, date = split_ws h ! 3, header = h,
                     description = filter (\<lambda>l. startswith l [TAB]) body\<rparr>
             else [])
            @ (if rest = [] then [] else parse_pending_changes output' start_date end_date)"
    using a seg rest by (simp add: parse_pending_changes_emitted emitted_Cons r)
qed

theorem description_lines_attached_witness:
  "parse_pending_changes listing_no_header ''2024-01-01'' None = []
   \<and> split_nl listing_stray =
       [TAB # ''stray''] @ ''Change 101 on 2024/01/05 by alice@ws''
         # [TAB # ''fix bug'', ''notes'', TAB # ''more''] @ split_nl listing_tail
   \<and> wf_header ''Change 101 on 2024/01/05 by alice@ws''
   \<and> wf_header (hd (split_nl listing_tail))
   \<and> parse_pending_changes listing_stray ''2024-01-01'' None =
       [\<lparr>number = ''101'', date = ''2024/01/05'',
         header = ''Change 101 on 2024/01/05 by alice@ws'',
         description = [TAB # ''fix bug'', TAB # ''more'']\<rparr>]
       @ parse_pending_changes listing_tail ''2024-01-01'' None"
proof -
  let ?h = "''Change 101 on 2024/01/05 by alice@ws''"
  let ?body = "[TAB # ''fix bug'', ''notes'', TAB # ''more'']"
  have n1: "\<forall>l\<in>set (split_nl listing_no_header). \<not> wf_header l" by code_simp
  have h1: "split_nl listing_stray = [TAB # ''stray''] @ ?h # ?body @ split_nl listing_tail"
    by code_simp
  have h2: "\<forall>l\<in>set [TAB # ''stray'']. \<not> wf_header l" by code_simp
  have h3: "wf_header ?h" by code_simp
  have h4: "\<forall>l\<in>set ?body. \<not> wf_header l" by code_simp
  have h5: "wf_header (hd (split_nl listing_tail))" by code_simp
  have h6: "split_nl listing_tail \<noteq> []" by code_simp
  have e1: "in_range (start_date_str ''2024-01-01'') (end_date_str None) ''2024/01/05''"
    by code_simp
  have e2: "length (filter malformed_header ?body) = 0" by code_simp
  have e3: "split_ws ?h ! 1 = ''101''" "split_ws ?h ! 3 = ''2024/01/05''"
    "filter (\<lambda>l. startswith l [TAB]) ?body = [TAB # ''fix bug'', TAB # ''more'']"
    by code_simp+
  from description_lines_attached[of listing_no_header "''2024-01-01''" None] n1
  have c1: "parse_pending_changes listing_no_header ''2024-01-01'' None = []"
    by blast
  from description_lines_attached[of listing_stray "''2024-01-01''" None "[TAB # ''stray'']"
      ?h ?body "split_nl listing_tail" listing_tail] h1 h2 h3 h4 h5
  have "parse_pending_changes listing_stray ''2024-01-01'' None =
            (if in_range (start_date_str ''2024-01-01'') (end_date_str None) (split_ws ?h ! 3)
             then replicate (Suc (length (filter malformed_header ?body)))
                    \<lparr>number = split_ws ?h ! 1, date = split_ws ?h ! 3, header = ?h,
                     description = filter (\<lambda>l. startswith l [TAB]) ?body\<rparr>
             else [])
            @ (if split_nl listing_tail = [] then []
               else parse_pending_changes listing_tail ''2024-01-01'' None)"
    by blast
  then have c2: "parse_pending_changes listing_stray ''2024-01-01'' None =
       [\<lparr>number = ''101'', date = ''2024/01/05'', header = ?h,
         description = [TAB # ''fix bug'', TAB # ''more'']\<rparr>]
       @ parse_pending_changes listing_tail ''2024-01-01'' None"
    by (simp only: e1 e2 e3 h6 if_True if_False replicate.simps append.simps)
  from c1 h1 h3 h5 c2 show ?thesis by blast
qed

section \<open>The command runner: outcomes\<close>

lemma and_then_exit: "and_then (SysExit n, st) f = (SysExit n, st)"
  by (simp add: and_then_def)

lemma and_then_return: "and_then (Return x, st) f = f x st"
  by (simp add: and_then_def)

lemma and_then_raise: "and_then (Raise x, st) f = (Raise x, st)"
  by (simp add: and_then_def)

lemma timed_exit: "timed e name (SysExit n, st) = (SysExit n, st)"
  by (simp add: timed_def and_then_exit)

text \<open>
  C7. When the child process runs to completion, the command runner returns its
  captured standard output exactly when the exit status is zero. For every other
  exit status it prints two diagnostic lines, the second with the standard error of
  the child, and calls \<open>sys.exit(1)\<close>. Either way exactly one child process has been
  spawned: there is no retry.
\<close>

theorem run_p4_command_outcome:
  assumes "child e (length (spawned st)) (p4_cmd p4_user p4_workspace p4_server command) = Inr p"
  shows "run_p4_command e st p4_user p4_workspace p4_server command =
     (if returncode p = 0
      then (Return (stdout p),
            st\<lparr>spawned := spawned st @ [p4_cmd p4_user p4_workspace p4_server command]\<rparr>)
      else (SysExit 1,
            st\<lparr>spawned := spawned st @ [p4_cmd p4_user p4_workspace p4_server command],
               err := err st @
                 [''Error running p4 command: '' @
                    exc_str e (CalledProcessError
                      (p4_cmd p4_user p4_workspace p4_server command)
                      (returncode p) (stdout p) (stderr p)),
                  ''Output: '' @ stderr p]\<rparr>))"
  using assms
  by (simp add: run_p4_command_def subprocess_run_def Let_def print_err_def)

theorem run_p4_command_outcome_witness:
  "run_p4_command env_failing io0 ''alice'' ''ws'' ''perforce:1666'' [''changes''] =
     (SysExit 1,
      \<lparr>spawned = [[''p4'', ''-u'', ''alice'', ''-c'', ''ws'', ''-p'', ''perforce:1666'', ''changes'']],
       err = [''Error running p4 command: command failed'',
              ''Output: Connect to server failed'']\<rparr>)"
proof -
  have h: "child env_failing (length (spawned io0))
             (p4_cmd ''alice'' ''ws'' ''perforce:1666'' [''changes''])
           = Inr \<lparr>returncode = 2, stdout = [], stderr = ''Connect to server failed''\<rparr>"
    by (simp add: env_failing_def)
  show ?thesis
    using run_p4_command_outcome[OF h]
    by (simp add: io0_def p4_cmd_def env_failing_def)
qed

section \<open>The report\<close>

lemma write_description_concat:
  "write_description report ds = report @ concat (map (\<lambda>d. d @ [NL]) ds)"
  by (induction ds arbitrary: report) simp_all

lemma write_changes_concat:
  "write_changes report cs =
     report @ concat (map (\<lambda>c. [NL] @ header c @ [NL]
                                 @ concat (map (\<lambda>d. d @ [NL]) (description c))) cs)"
  by (induction cs arbitrary: report) (simp_all add: write_description_concat)

lemma run_p4_command_ok:
  assumes "child e (length (spawned st)) (p4_cmd u w s command) = Inr p" "returncode p = 0"
  shows "run_p4_command e st u w s command =
           (Return (stdout p), st\<lparr>spawned := spawned st @ [p4_cmd u w s command]\<rparr>)"
  using assms by (simp add: run_p4_command_def subprocess_run_def Let_def)

text \<open>
  An exit of the command runner ends the report assembler: when the pending listing
  cannot be obtained, no report is returned.
\<close>

lemma generate_raw_report_exit:
  assumes "resolve_path_filter e st p4_user p4_workspace p4_server depot_paths
             = (Return path_filter, st1)"
    and "child e (length (spawned st1))
           (p4_cmd p4_user p4_workspace p4_server (pending_cmd p4_user path_filter)) = Inr p"
    and "returncode p \<noteq> 0"
  shows "fst (generate_raw_report e st p4_user p4_workspace p4_server start_date end_date
                depot_paths) = SysExit 1"
  unfolding generate_raw_report_def generate_raw_report_body_def
  using assms
  by (simp add: and_then_return and_then_exit timed_exit run_p4_command_def
      subprocess_run_def Let_def)

text \<open>
  C9. When the three listings are obtained (each child process exits with status
  zero), the report is the metadata, then the pending section, then the submitted
  section. The pending section is, for each record the parser returned, an empty
  line, the header line and the description lines, each ended by a newline; for an
  empty list it is the notice \<open>No pending changes found for this period.\<close> The
  submitted section is the long listing verbatim, followed by a newline, when the
  listing is not blank, and the notice \<open>No submitted changes found for this period.\<close>
  otherwise.
\<close>

theorem report_sections:
  assumes "resolve_path_filter e st p4_user p4_workspace p4_server depot_paths
             = (Return path_filter, st1)"
    and "child e (length (spawned st1))
           (p4_cmd p4_user p4_workspace p4_server (pending_cmd p4_user path_filter)) = Inr p1"
    and "returncode p1 = 0"
    and "child e (Suc (length (spawned st1)))
           (p4_cmd p4_user p4_workspace p4_server
              (submitted_cmd False p4_user path_filter start_date end_date)) = Inr p2"
    and "returncode p2 = 0"
    and "child e (Suc (Suc (length (spawned st1))))
           (p4_cmd p4_user p4_workspace p4_server
              (submitted_cmd True p4_user path_filter start_date end_date)) = Inr p3"
    and "returncode p3 = 0"
  shows "fst (generate_raw_report e st p4_user p4_workspace p4_server start_date end_date
                depot_paths) =
         Return
          (let pending_changes = parse_pending_changes (stdout p1) start_date end_date in
           report_metadata (now e) p4_user p4_workspace p4_server start_date end_date
             (length pending_changes)
             (length (filter (\<lambda>line. startswith line ''Change '') (split_nl (stdout p2))))
           @ (if pending_changes \<noteq> []
              then concat (map (\<lambda>c. [NL] @ header c @ [NL]
                                      @ concat (map (\<lambda>d. d @ [NL]) (description c)))
                             pending_changes)
              else ''No pending changes found for this period.'' @ [NL])
           @ (if strip (stdout p3) \<noteq> []
              then stdout p3 @ [NL]
              else ''No submitted changes found for this period.'' @ [NL]))"
proof -
  let ?c1 = "p4_cmd p4_user p4_workspace p4_server (pending_cmd p4_user path_filter)"
  let ?c2 = "p4_cmd p4_user p4_workspace p4_server
               (submitted_cmd False p4_user path_filter start_date end_date)"
  let ?c3 = "p4_cmd p4_user p4_workspace p4_server
               (submitted_cmd True p4_user path_filter start_date end_date)"
  let ?st2 = "st1\<lparr>spawned := spawned st1 @ [?c1]\<rparr>"
  let ?st3 = "st1\<lparr>spawned := spawned st1 @ [?c1, ?c2]\<rparr>"
  let ?st4 = "st1\<lparr>spawned := spawned st1 @ [?c1, ?c2, ?c3]\<rparr>"
  have r1: "run_p4_command e st1 p4_user p4_workspace p4_server (pending_cmd p4_user path_filter)
              = (Return (stdout p1), ?st2)"
    using assms(2,3) by (rule run_p4_command_ok)
  have "run_p4_command e ?st2 p4_user p4_workspace p4_server
              (submitted_cmd False p4_user path_filter start_date end_date)
              = (Return (stdout p2), ?st2\<lparr>spawned := spawned ?st2 @ [?c2]\<rparr>)"
    using assms(4,5) by (intro run_p4_command_ok) simp_all
  then have r2: "run_p4_command e ?st2 p4_user p4_workspace p4_server
              (submitted_cmd False p4_user path_filter start_date end_date)
              = (Return (stdout p2), ?st3)"
    by simp
  have "run_p4_command e ?st3 p4_user p4_workspace p4_server
              (submitted_cmd True p4_user path_filter start_date end_date)
              = (Return (stdout p3), ?st3\<lparr>spawned := spawned ?st3 @ [?c3]\<rparr>)"
    using assms(6,7) by (intro run_p4_command_ok) simp_all
  then have r3: "run_p4_command e ?st3 p4_user p4_workspace p4_server
              (submitted_cmd True p4_user path_filter start_date end_date)
              = (Return (stdout p3), ?st4)"
    by simp
  show ?thesis
    unfolding generate_raw_report_def generate_raw_report_body_def timed_def
    by (simp add: assms(1) and_then_return r1 r2 r3 Let_def write_changes_concat)
qed

theorem report_sections_witness:
  "fst (generate_raw_report env_listing io0 ''alice'' ''ws'' ''perforce:1666''
          ''2024-01-01'' (Some ''2024-01-31'') (Some [''//depot/main/...''])) =
   Return
     (report_metadata ''2024-02-01 10:00:00'' ''alice'' ''ws'' ''perforce:1666''
        ''2024-01-01'' (Some ''2024-01-31'') 2 1
      @ [NL] @ ''Change 101 on 2024/01/05 by alice@ws'' @ [NL]
      @ [TAB] @ ''fix bug'' @ [NL]
      @ [NL] @ ''Change 102 on 2024/01/20 by alice@ws'' @ [NL]
      @ [TAB] @ ''add feature'' @ [NL]
      @ submitted_long @ [NL])"
proof -
  let ?pf = "[''//depot/main/...'']"
  let ?p1 = "\<lparr>returncode = 0, stdout = listing_two, stderr = []\<rparr>"
  let ?p2 = "\<lparr>returncode = 0, stdout = submitted_short, stderr = []\<rparr>"
  let ?p3 = "\<lparr>returncode = 0, stdout = submitted_long, stderr = []\<rparr>"
  have h1: "resolve_path_filter env_listing io0 ''alice'' ''ws'' ''perforce:1666'' (Some ?pf)
              = (Return ?pf, io0)"
    by (simp add: resolve_path_filter_def)
  have h2: "child env_listing (length (spawned io0))
              (p4_cmd ''alice'' ''ws'' ''perforce:1666'' (pending_cmd ''alice'' ?pf)) = Inr ?p1"
    by (simp add: env_listing_def io0_def)
  have h3: "child env_listing (Suc (length (spawned io0)))
              (p4_cmd ''alice'' ''ws'' ''perforce:1666''
                 (submitted_cmd False ''alice'' ?pf ''2024-01-01'' (Some ''2024-01-31'')))
            = Inr ?p2"
    by (simp add: env_listing_def io0_def)
  have h4: "child env_listing (Suc (Suc (length (spawned io0))))
              (p4_cmd ''alice'' ''ws'' ''perforce:1666''
                 (submitted_cmd True ''alice'' ?pf ''2024-01-01'' (Some ''2024-01-31'')))
            = Inr ?p3"
    by (simp add: env_listing_def io0_def)
  have z: "returncode ?p1 = 0" "returncode ?p2 = 0" "returncode ?p3 = 0" by simp_all
  have e1: "parse_pending_changes listing_two ''2024-01-01'' (Some ''2024-01-31'') =
      [\<lparr>number = ''101'', date = ''2024/01/05'',
        header = ''Change 101 on 2024/01/05 by alice@ws'', description = [TAB # ''fix bug'']\<rparr>,
       \<lparr>number = ''102'', date = ''2024/01/20'',
        header = ''Change 102 on 2024/01/20 by alice@ws'',
        description = [TAB # ''add feature'']\<rparr>]"
    by code_simp
  have e2: "length (filter (\<lambda>line. startswith line ''Change '') (split_nl submitted_short)) = 1"
    by code_simp
  have e3: "strip submitted_long \<noteq> []" by code_simp
  have n: "now env_listing = ''2024-02-01 10:00:00''" by (simp add: env_listing_def)
  show ?thesis
    using report_sections[OF h1 h2 z(1) h3 z(2) h4 z(3)]
    by (simp add: e1 e2 e3 n Let_def numeral_2_eq_2)
qed

section \<open>The summary requester: outcomes\<close>

lemma on_exception_request:
  "is_RequestException x \<Longrightarrow>
   on_exception e st ollama_url x =
     (Return JNull,
      st\<lparr>err := err st @ [''Error connecting to Ollama: '' @ exc_str e x,
                           ''Make sure Ollama is running at '' @ ollama_url]\<rparr>)"
  by (simp add: on_exception_def print_err_def)

lemma timed_return:
  "timed e name (Return x, st) =
     (Return x, st\<lparr>err := err st @ [name @ '' took '' @ elapsed e name @ ''s'']\<rparr>)"
  by (simp add: timed_def and_then_def print_err_def)

text \<open>
  C6, as the code has it. The requester prints its two diagnostic lines and returns
  \<open>None\<close> when \<open>requests.post\<close> raises a \<open>RequestException\<close> (a refused connection, a
  timeout), when the response has a status from 400 to 599, and when the response
  has another status and decoding its body raises a \<open>RequestException\<close>. When the
  response has a status outside 400 to 599 and its body decodes to a JSON object, the
  requester returns the field \<open>response\<close> of the object, or the text
  \<open>No AI report generated\<close> when the object has no such field; that text is not
  \<open>None\<close> and not empty. In each of these cases the call returns (and the timing
  line is printed).
\<close>

theorem summary_requester_outcomes:
  "(http_post e (ollama_request ollama_url model (make_prompt custom_prompt report_text)) = Inl x
      \<and> is_RequestException x
    \<longrightarrow> generate_ai_report e st report_text ollama_url model custom_prompt =
          (Return JNull,
           st\<lparr>err := err st @
              [''Error connecting to Ollama: '' @ exc_str e x,
               ''Make sure Ollama is running at '' @ ollama_url,
               ''generate_ai_report took '' @ elapsed e ''generate_ai_report'' @ ''s'']\<rparr>))
   \<and> (http_post e (ollama_request ollama_url model (make_prompt custom_prompt report_text)) = Inr r
        \<and> 400 \<le> status_code r \<and> status_code r < 600
      \<longrightarrow> generate_ai_report e st report_text ollama_url model custom_prompt =
            (Return JNull,
             st\<lparr>err := err st @
                [''Error connecting to Ollama: '' @ exc_str e (HTTPError (status_code r)),
                 ''Make sure Ollama is running at '' @ ollama_url,
                 ''generate_ai_report took '' @ elapsed e ''generate_ai_report'' @ ''s'']\<rparr>))
   \<and> (http_post e (ollama_request ollama_url model (make_prompt custom_prompt report_text)) = Inr r
        \<and> \<not> (400 \<le> status_code r \<and> status_code r < 600)
        \<and> json_result r = Inl x \<and> is_RequestException x
      \<longrightarrow> generate_ai_report e st report_text ollama_url model custom_prompt =
            (Return JNull,
             st\<lparr>err := err st @
                [''Error connecting to Ollama: '' @ exc_str e x,
                 ''Make sure Ollama is running at '' @ ollama_url,
                 ''generate_ai_report took '' @ elapsed e ''generate_ai_report'' @ ''s'']\<rparr>))
   \<and> (http_post e (ollama_request ollama_url model (make_prompt custom_prompt report_text)) = Inr r
        \<and> \<not> (400 \<le> status_code r \<and> status_code r < 600)
        \<and> json_result r = Inr (JObject d) \<and> d ''response'' = Some v
      \<longrightarrow> generate_ai_report e st report_text ollama_url model custom_prompt =
            (Return v,
             st\<lparr>err := err st @
                [''generate_ai_report took '' @ elapsed e ''generate_ai_report'' @ ''s'']\<rparr>))
   \<and> (http_post e (ollama_request ollama_url model (make_prompt custom_prompt report_text)) = Inr r
        \<and> \<not> (400 \<le> status_code r \<and> status_code r < 600)
        \<and> json_result r = Inr (JObject d) \<and> d ''response'' = None
      \<longrightarrow> generate_ai_report e st report_text ollama_url model custom_prompt =
            (Return (JString ''No AI report generated''),
             st\<lparr>err := err st @
                [''generate_ai_report took '' @ elapsed e ''generate_ai_report'' @ ''s'']\<rparr>))"
  by (auto simp: generate_ai_report_def generate_ai_report_body_def Let_def
      raise_for_status_def on_exception_request timed_return)

theorem summary_requester_outcomes_witness:
  "generate_ai_report (env_http (Inl ConnectionError)) io0 ''report'' ''http://localhost:11434''
       ''qwen2.5:14b'' ''Summarise'' =
     (Return JNull,
      \<lparr>spawned = [],
       err = [''Error connecting to Ollama: error'',
              ''Make sure Ollama is running at http://localhost:11434'',
              ''generate_ai_report took 0.001s'']\<rparr>)
   \<and> generate_ai_report (env_http (Inr response_500)) io0 ''report'' ''http://localhost:11434''
       ''qwen2.5:14b'' ''Summarise'' =
     (Return JNull,
      \<lparr>spawned = [],
       err = [''Error connecting to Ollama: error'',
              ''Make sure Ollama is running at http://localhost:11434'',
              ''generate_ai_report took 0.001s'']\<rparr>)
   \<and> generate_ai_report (env_http (Inr response_bad_json)) io0 ''report''
       ''http://localhost:11434'' ''qwen2.5:14b'' ''Summarise'' =
     (Return JNull,
      \<lparr>spawned = [],
       err = [''Error connecting to Ollama: error'',
              ''Make sure Ollama is running at http://localhost:11434'',
              ''generate_ai_report took 0.001s'']\<rparr>)
   \<and> generate_ai_report (env_http (Inr response_with_field)) io0 ''report''
       ''http://localhost:11434'' ''qwen2.5:14b'' ''Summarise'' =
     (Return (JString ''summary''),
      \<lparr>spawned = [], err = [''generate_ai_report took 0.001s'']\<rparr>)
   \<and> generate_ai_report (env_http (Inr response_no_field)) io0 ''report''
       ''http://localhost:11434'' ''qwen2.5:14b'' ''Summarise'' =
     (Return (JString ''No AI report generated''),
      \<lparr>spawned = [], err = [''generate_ai_report took 0.001s'']\<rparr>)"
proof -
  let ?q = "ollama_request ''http://localhost:11434'' ''qwen2.5:14b''
              (make_prompt ''Summarise'' ''report'')"
  let ?url = "''http://localhost:11434''" and ?m = "''qwen2.5:14b''"
  have a: "http_post (env_http (Inl ConnectionError)) ?q = Inl ConnectionError
           \<and> is_RequestException ConnectionError"
    by (simp add: env_http_def)
  have b: "http_post (env_http (Inr response_500)) ?q = Inr response_500
           \<and> 400 \<le> status_code response_500 \<and> status_code response_500 < 600"
    by (simp add: env_http_def response_500_def)
  have c: "http_post (env_http (Inr response_bad_json)) ?q = Inr response_bad_json
           \<and> \<not> (400 \<le> status_code response_bad_json \<and> status_code response_bad_json < 600)
           \<and> json_result response_bad_json = Inl (OtherRequestException ''no JSON'')
           \<and> is_RequestException (OtherRequestException ''no JSON'')"
    by (simp add: env_http_def response_bad_json_def)
  have d: "http_post (env_http (Inr response_with_field)) ?q = Inr response_with_field
           \<and> \<not> (400 \<le> status_code response_with_field
                 \<and> status_code response_with_field < 600)
           \<and> json_result response_with_field
               = Inr (JObject [''response'' \<mapsto> JString ''summary''])
           \<and> [''response'' \<mapsto> JString ''summary''] ''response'' = Some (JString ''summary'')"
    by (simp add: env_http_def response_with_field_def)
  have f: "http_post (env_http (Inr response_no_field)) ?q = Inr response_no_field
           \<and> \<not> (400 \<le> status_code response_no_field \<and> status_code response_no_field < 600)
           \<and> json_result response_no_field = Inr (JObject [''done'' \<mapsto> JBool True])
           \<and> [''done'' \<mapsto> JBool True] ''response'' = None"
    by (simp add: env_http_def response_no_field_def)
  have e: "exc_str (env_http w) x = ''error''" "elapsed (env_http w) n = ''0.001''" for w x n
    by (simp_all add: env_http_def)
  from summary_requester_outcomes[of "env_http (Inl ConnectionError)" ?url ?m
      "''Summarise''" "''report''" ConnectionError io0] a
  have r1: "generate_ai_report (env_http (Inl ConnectionError)) io0 ''report'' ?url ?m
       ''Summarise'' =
     (Return JNull,
      \<lparr>spawned = [],
       err = [''Error connecting to Ollama: error'',
              ''Make sure Ollama is running at http://localhost:11434'',
              ''generate_ai_report took 0.001s'']\<rparr>)"
    by (simp add: e io0_def)
  from summary_requester_outcomes[of "env_http (Inr response_500)" ?url ?m
      "''Summarise''" "''report''" _ io0 response_500] b
  have r2: "generate_ai_report (env_http (Inr response_500)) io0 ''report'' ?url ?m
       ''Summarise'' =
     (Return JNull,
      \<lparr>spawned = [],
       err = [''Error connecting to Ollama: error'',
              ''Make sure Ollama is running at http://localhost:11434'',
              ''generate_ai_report took 0.001s'']\<rparr>)"
    by (simp add: e io0_def)
  from summary_requester_outcomes[of "env_http (Inr response_bad_json)" ?url ?m
      "''Summarise''" "''report''" "OtherRequestException ''no JSON''" io0 response_bad_json] c
  have r3: "generate_ai_report (env_http (Inr response_bad_json)) io0 ''report'' ?url ?m
       ''Summarise'' =
     (Return JNull,
      \<lparr>spawned = [],
       err = [''Error connecting to Ollama: error'',
              ''Make sure Ollama is running at http://localhost:11434'',
              ''generate_ai_report took 0.001s'']\<rparr>)"
    by (simp add: e io0_def)
  from summary_requester_outcomes[of "env_http (Inr response_with_field)" ?url ?m
      "''Summarise''" "''report''" _ io0 response_with_field
      "[''response'' \<mapsto> JString ''summary'']" "JString ''summary''"] d
  have r4: "generate_ai_report (env_http (Inr response_with_field)) io0 ''report'' ?url ?m
       ''Summarise'' =
     (Return (JString ''summary''),
      \<lparr>spawned = [], err = [''generate_ai_report took 0.001s'']\<rparr>)"
    by (simp add: e io0_def)
  from summary_requester_outcomes[of "env_http (Inr response_no_field)" ?url ?m
      "''Summarise''" "''report''" _ io0 response_no_field "[''done'' \<mapsto> JBool True]"] f
  have r5: "generate_ai_report (env_http (Inr response_no_field)) io0 ''report'' ?url ?m
       ''Summarise'' =
     (Return (JString ''No AI report generated''),
      \<lparr>spawned = [], err = [''generate_ai_report took 0.001s'']\<rparr>)"
    by (simp add: e io0_def)
  from r1 r2 r3 r4 r5 show ?thesis by blast
qed

text \<open>
  C6 as stated fails for a status that is neither 2xx nor 4xx/5xx: a response with
  status 300 whose JSON body has the field is returned as a summary, not as a
  failure.
\<close>

theorem status_300_is_not_a_failure:
  "status_code response_300 = 300
   \<and> fst (generate_ai_report (env_http (Inr response_300)) io0 ''report''
            ''http://localhost:11434'' ''qwen2.5:14b'' ''Summarise'')
       = Return (JString ''summary'')"
  by (simp add: generate_ai_report_def generate_ai_report_body_def Let_def
      raise_for_status_def timed_return env_http_def response_300_def)

end
